theory Spec2Isabelle
  imports Complex_Main "HOL-Library.Monad_Syntax" "HOL-Library.AList"
begin

section \<open>The PKP strategy engine (src/strategies/pkp/strategy.py)\<close>

text \<open>
  The class \<^verbatim>\<open>PKPStrategy\<close> is embedded as a record holding its configuration and its
  state, and every method as a function that takes the object and returns the updated one.

  Conventions of the embedding:
  \<^item> Python's \<^verbatim>\<open>int\<close> is \<open>int\<close>. Python's \<^verbatim>\<open>float\<close> is \<open>real\<close>: in the rules of
    \<^verbatim>\<open>run\<close> amounts are exact real numbers. The rounding of IEEE doubles is modelled
    apart (\<open>round_double\<close>), and the capital recovery of a sale is given in doubles as
    well (\<open>sell_funds_double\<close>).
  \<^item> The only exception the engine can raise on well-typed input is
    \<^verbatim>\<open>ZeroDivisionError\<close>; a computation that may raise it returns an \<open>option\<close>, and
    \<open>None\<close> is the raise.
  \<^item> A \<^verbatim>\<open>datetime\<close> is a calendar date (year, month, day); the callers build every input
    date at midnight.
  \<^item> Printing (\<^verbatim>\<open>verbose\<close>, \<^verbatim>\<open>show_notes\<close>, \<^verbatim>\<open>log_daily\<close>, the report tables) is left out.
    The free-text note of a transaction keeps the numbers that the f-string formats.
\<close>

subsection \<open>Python arithmetic\<close>

definition py_truediv :: "real \<Rightarrow> real \<Rightarrow> real option" where
  "py_truediv a b = (if b = 0 then None else Some (a / b))"

definition py_floordiv :: "real \<Rightarrow> real \<Rightarrow> real option" where
  "py_floordiv a b = (if b = 0 then None else Some (of_int \<lfloor>a / b\<rfloor>))"

text \<open>\<^verbatim>\<open>int(x)\<close> on a float truncates towards zero.\<close>

definition py_int :: "real \<Rightarrow> int" where
  "py_int x = (if 0 \<le> x then \<lfloor>x\<rfloor> else \<lceil>x\<rceil>)"

subsection \<open>IEEE doubles\<close>

text \<open>
  A \<^verbatim>\<open>float\<close> of Python is an IEEE binary64 double: 53 significant bits, and every
  arithmetic operation returns the double nearest to the exact result, ties to the even
  significand. \<open>round_double\<close> is that rounding, for magnitudes in the normal range
  (overflow to infinity and subnormal numbers are left out).
\<close>

text \<open>\<^verbatim>\<open>int.bit_length\<close>: the number of binary digits of a natural number.\<close>

fun bit_length :: "nat \<Rightarrow> nat" where
  "bit_length n = (if n = 0 then 0 else Suc (bit_length (n div 2)))"

declare bit_length.simps [simp del]

definition pow2 :: "int \<Rightarrow> real" where
  "pow2 k = (if 0 \<le> k then 2 ^ nat k else 1 / 2 ^ nat (- k))"

text \<open>The exponent \<open>e\<close> of a non-zero \<open>x\<close>: \<open>2 ^ e \<le> \<bar>x\<bar> < 2 ^ (e + 1)\<close>.\<close>

definition binade :: "real \<Rightarrow> int" where
  "binade x =
     (if 1 \<le> \<bar>x\<bar> then int (bit_length (nat \<lfloor>\<bar>x\<bar>\<rfloor>)) - 1
      else - int (bit_length (nat (\<lceil>1 / \<bar>x\<bar>\<rceil> - 1))))"

definition round_half_even :: "real \<Rightarrow> int" where
  "round_half_even x =
     (let f = \<lfloor>x\<rfloor>; d = x - of_int f
      in if d < 1 / 2 then f else if 1 / 2 < d then f + 1 else if even f then f else f + 1)"

definition round_double :: "real \<Rightarrow> real" where
  "round_double x =
     (if x = 0 then 0
      else (let ulp = pow2 (binade x - 52)
            in of_int (round_half_even (x / ulp)) * ulp))"

subsection \<open>Data\<close>

record date =
  year :: int
  month :: nat
  day :: nat

definition date_less :: "date \<Rightarrow> date \<Rightarrow> bool" where
  "date_less a b \<longleftrightarrow>
     year a < year b \<or>
     (year a = year b \<and> (month a < month b \<or> (month a = month b \<and> day a < day b)))"

text \<open>One input record: \<^verbatim>\<open>{'date': ..., 'close': ...}\<close>.\<close>

record row =
  date :: date
  close :: real

text \<open>The \<^verbatim>\<open>type\<close> of a transaction: \<^verbatim>\<open>"LUMPSUM"\<close>, \<^verbatim>\<open>"SIP"\<close>, \<^verbatim>\<open>f"BID-{k}x"\<close>, \<^verbatim>\<open>"SELL"\<close>.\<close>

datatype txn_type = LUMPSUM | SIP | BID int | SELL

text \<open>
  The \<^verbatim>\<open>notes\<close> of a transaction, as the values its f-string formats:
  \<^verbatim>\<open>"Initial Investment"\<close>; \<^verbatim>\<open>"Reserve used: {amount_from_reserve}"\<close>;
  \<^verbatim>\<open>"Drop: {drop_pct*100}% | Reserve used: {amount_from_reserve}"\<close>;
  \<^verbatim>\<open>"Gain: {gain_pct*100}% | Profit: {profit_val} | Recov: {invested_reduction}"\<close>.
\<close>

datatype txn_notes =
    Initial_Investment
  | Reserve_used real
  | Drop_Reserve_used real real
  | Gain_Profit_Recov real real real

record transaction =
  t_date :: date
  t_type :: txn_type
  t_units :: int
  t_price :: real
  t_amount :: real
  t_total_units :: int
  t_pap :: real
  t_bia :: real
  t_actual_invested :: real
  t_current_market_value :: real
  t_pnl_pct :: real
  t_profit_reserve :: real
  t_notes :: txn_notes

record history_record =
  h_date :: date
  h_units :: int
  h_pap :: real
  h_price :: real
  h_portfolio_value :: real
  h_profit_reserve :: real
  h_total_equity :: real
  h_actual_invested :: real

text \<open>
  The object. \<^verbatim>\<open>monthly_profits\<close> is a dict keyed by \<^verbatim>\<open>strftime('%Y-%m')\<close>: an association
  list keyed by (year, month), in insertion order.
\<close>

record PKPStrategy =
  ticker :: string
  base_sip :: real
  min_profit_booking_amount :: real
  initial_lumpsum :: real
  bid_multiplier :: real
  bid_trigger_drop :: real
  total_units :: int
  bia :: real
  pap :: real
  profit_reserve :: real
  actual_invested :: real
  transactions :: "transaction list"
  portfolio_history :: "history_record list"
  current_bid_stage :: int
  bids_executed_count :: int
  current_sip_amount :: real
  initial_breakeven_date :: "date option"
  sustained_breakeven_date :: "date option"
  monthly_profits :: "((int \<times> nat) \<times> real) list"
  has_invested :: bool
  max_actual_invested :: real
  max_actual_invested_date :: "date option"
  benchmark_units :: int
  benchmark_invested :: real

text \<open>
  \<^verbatim>\<open>__init__\<close>, with its arguments in the order of the source (without \<^verbatim>\<open>verbose\<close> and
  \<^verbatim>\<open>show_notes\<close>): ticker, base_sip, min_profit_booking_amount, bid_multiplier,
  bid_trigger_drop, initial_lumpsum.
\<close>

definition PKPStrategy_init ::
  "string \<Rightarrow> real \<Rightarrow> real \<Rightarrow> real \<Rightarrow> real \<Rightarrow> real \<Rightarrow> PKPStrategy" where
  "PKPStrategy_init tk sip_amt min_profit bid_mult bid_drop lump =
     \<lparr> ticker = tk,
       base_sip = sip_amt,
       min_profit_booking_amount = min_profit,
       initial_lumpsum = lump,
       bid_multiplier = bid_mult,
       bid_trigger_drop = bid_drop,
       total_units = 0,
       bia = 0,
       pap = 0,
       profit_reserve = 0,
       actual_invested = 0,
       transactions = [],
       portfolio_history = [],
       current_bid_stage = 0,
       bids_executed_count = 0,
       current_sip_amount = sip_amt,
       initial_breakeven_date = None,
       sustained_breakeven_date = None,
       monthly_profits = [],
       has_invested = False,
       max_actual_invested = 0,
       max_actual_invested_date = None,
       benchmark_units = 0,
       benchmark_invested = 0 \<rparr>"

subsection \<open>\<^verbatim>\<open>log_transaction\<close> and \<^verbatim>\<open>record_history\<close>\<close>

definition log_transaction ::
  "PKPStrategy \<Rightarrow> date \<Rightarrow> txn_type \<Rightarrow> int \<Rightarrow> real \<Rightarrow> real \<Rightarrow> real \<Rightarrow> txn_notes \<Rightarrow> PKPStrategy" where
  "log_transaction self dt type units price amount actual_invested_now note =
     (let current_market_value = of_int (total_units self) * price;
          pnl_pct = (if bia self > 0 then (current_market_value - bia self) / bia self else 0)
      in self\<lparr>transactions := transactions self @
           [\<lparr> t_date = dt,
              t_type = type,
              t_units = units,
              t_price = price,
              t_amount = amount,
              t_total_units = total_units self,
              t_pap = pap self,
              t_bia = bia self,
              t_actual_invested = actual_invested_now,
              t_current_market_value = current_market_value,
              t_pnl_pct = pnl_pct,
              t_profit_reserve = profit_reserve self,
              t_notes = note \<rparr>]\<rparr>)"

definition record_history :: "PKPStrategy \<Rightarrow> date \<Rightarrow> real \<Rightarrow> PKPStrategy" where
  "record_history self dt current_price =
     (let portfolio_value = of_int (total_units self) * current_price;
          total_equity = portfolio_value + profit_reserve self;
          self1 = (if has_invested self \<and> actual_invested self \<le> 0
                      \<and> initial_breakeven_date self = None
                   then self\<lparr>initial_breakeven_date := Some dt\<rparr> else self)
      in self1\<lparr>portfolio_history := portfolio_history self1 @
           [\<lparr> h_date = dt,
              h_units = total_units self1,
              h_pap = pap self1,
              h_price = current_price,
              h_portfolio_value = portfolio_value,
              h_profit_reserve = profit_reserve self1,
              h_total_equity = total_equity,
              h_actual_invested = actual_invested self1 \<rparr>]\<rparr>)"

subsection \<open>The rules of \<^verbatim>\<open>run\<close>\<close>

text \<open>
  Lines 93 to 111: the purchase of the initial lumpsum, of \<open>units_to_buy\<close> units. It does
  not look at the reserve: the whole cost is fresh capital. The benchmark buys the same.
\<close>

definition lumpsum_exec :: "PKPStrategy \<Rightarrow> date \<Rightarrow> real \<Rightarrow> int \<Rightarrow> PKPStrategy option" where
  "lumpsum_exec self dt close_price units_to_buy =
     do {
       let cost = of_int units_to_buy * close_price;
       let s1 = self\<lparr>bia := bia self + cost,
                     total_units := total_units self + units_to_buy\<rparr>;
       p \<leftarrow> py_truediv (bia s1) (of_int (total_units s1));
       let s2 = s1\<lparr>pap := p,
                   actual_invested := actual_invested s1 + cost,
                   has_invested := True\<rparr>;
       let s3 = (if actual_invested s2 > max_actual_invested s2
                 then s2\<lparr>max_actual_invested := actual_invested s2,
                         max_actual_invested_date := Some dt\<rparr>
                 else s2);
       let s4 = s3\<lparr>benchmark_invested := benchmark_invested s3 + cost,
                   benchmark_units := benchmark_units s3 + units_to_buy\<rparr>;
       Some (log_transaction s4 dt LUMPSUM units_to_buy close_price cost
               (actual_invested s4) Initial_Investment)
     }"

text \<open>Lines 89 to 111: the initial lumpsum, on the first record only.\<close>

definition lumpsum :: "PKPStrategy \<Rightarrow> nat \<Rightarrow> date \<Rightarrow> real \<Rightarrow> PKPStrategy option" where
  "lumpsum self i dt close_price =
     (if i = 0 \<and> initial_lumpsum self > 0 then
        do {
          q \<leftarrow> py_truediv (initial_lumpsum self) close_price;
          let units_to_buy = py_int q;
          if units_to_buy > 0 then lumpsum_exec self dt close_price units_to_buy
          else Some self
        }
      else Some self)"

text \<open>
  Lines 139 to 159, and again lines 191 to 211: the purchase of \<open>units_to_buy\<close> units,
  funded from the reserve first. The result carries \<^verbatim>\<open>amount_from_reserve\<close> for the note.
\<close>

definition buy_reserve_first ::
  "PKPStrategy \<Rightarrow> date \<Rightarrow> real \<Rightarrow> int \<Rightarrow> (PKPStrategy \<times> real) option" where
  "buy_reserve_first self dt close_price units_to_buy =
     do {
       let cost = of_int units_to_buy * close_price;
       let s1 = self\<lparr>bia := bia self + cost,
                     total_units := total_units self + units_to_buy\<rparr>;
       p \<leftarrow> py_truediv (bia s1) (of_int (total_units s1));
       let s2 = s1\<lparr>pap := p\<rparr>;
       let amount_from_reserve = min cost (profit_reserve s2);
       let s3 = s2\<lparr>profit_reserve := profit_reserve s2 - amount_from_reserve\<rparr>;
       let fresh_capital = cost - amount_from_reserve;
       let s4 = (if fresh_capital > 0 then
                   (let s3a = s3\<lparr>actual_invested := actual_invested s3 + fresh_capital,
                                 has_invested := True\<rparr>
                    in if actual_invested s3a > max_actual_invested s3a
                       then s3a\<lparr>max_actual_invested := actual_invested s3a,
                                 max_actual_invested_date := Some dt\<rparr>
                       else s3a)
                 else s3);
       Some (s4, amount_from_reserve)
     }"

text \<open>Lines 139 to 162: the purchase of a contribution day and its transaction.\<close>

definition sip_exec :: "PKPStrategy \<Rightarrow> date \<Rightarrow> real \<Rightarrow> int \<Rightarrow> PKPStrategy option" where
  "sip_exec self dt close_price units_to_buy =
     do {
       let cost = of_int units_to_buy * close_price;
       (s1, amount_from_reserve) \<leftarrow> buy_reserve_first self dt close_price units_to_buy;
       Some (log_transaction s1 dt SIP units_to_buy close_price cost
               (actual_invested s1) (Reserve_used amount_from_reserve))
     }"

text \<open>
  Lines 126 to 133: on a contribution day the benchmark buys its regular contribution, and
  \<^verbatim>\<open>current_sip_amount\<close> is set to the fixed amount.
\<close>

definition benchmark_sip :: "PKPStrategy \<Rightarrow> real \<Rightarrow> PKPStrategy option" where
  "benchmark_sip self close_price =
     do {
       qb \<leftarrow> py_truediv (base_sip self) close_price;
       let bench_units = py_int qb;
       let s1 = (if bench_units > 0
                 then self\<lparr>benchmark_invested :=
                              benchmark_invested self + of_int bench_units * close_price,
                            benchmark_units := benchmark_units self + bench_units\<rparr>
                 else self);
       Some (s1\<lparr>current_sip_amount := base_sip s1\<rparr>)
     }"

text \<open>
  Lines 125 to 167: the contribution day. The result carries \<^verbatim>\<open>action_taken\<close>
  (\<open>None\<close> is the empty string).
\<close>

definition sip :: "PKPStrategy \<Rightarrow> date \<Rightarrow> real \<Rightarrow> (PKPStrategy \<times> txn_type option) option" where
  "sip self dt close_price =
     do {
       s2 \<leftarrow> benchmark_sip self close_price;
       q \<leftarrow> py_truediv (current_sip_amount s2) close_price;
       let units_to_buy = py_int q;
       (s3, action) \<leftarrow>
         (if units_to_buy > 0
          then map_option (\<lambda>s. (s, Some SIP)) (sip_exec s2 dt close_price units_to_buy)
          else Some (s2, None));
       Some (record_history s3 dt close_price, action)
     }"

text \<open>
  Lines 191 to 219: the purchase of a dip-buy at stage \<open>bid_multiplier_factor\<close>, its
  transaction and the history record of the day.
\<close>

definition bid_exec ::
  "PKPStrategy \<Rightarrow> date \<Rightarrow> real \<Rightarrow> real \<Rightarrow> int \<Rightarrow> int \<Rightarrow> PKPStrategy option" where
  "bid_exec self dt close_price drop_pct bid_multiplier_factor units_to_buy =
     do {
       let cost = of_int units_to_buy * close_price;
       (s1, amount_from_reserve) \<leftarrow> buy_reserve_first self dt close_price units_to_buy;
       let s2 = s1\<lparr>bids_executed_count := bids_executed_count s1 + 1,
                   current_bid_stage := current_bid_stage s1 + 1\<rparr>;
       let s3 = log_transaction s2 dt (BID bid_multiplier_factor) units_to_buy
                  close_price cost (actual_invested s2)
                  (Drop_Reserve_used (drop_pct * 100) amount_from_reserve);
       Some (record_history s3 dt close_price)
     }"

text \<open>
  Lines 170 to 221: the staged buy on a dip. When a buy executes the day ends
  (\<^verbatim>\<open>continue\<close>): \<^verbatim>\<open>action_taken\<close> is then \<open>Some (BID k)\<close>. Otherwise the object is
  returned as it was and the day goes on to the sell rule.
\<close>

definition bid :: "PKPStrategy \<Rightarrow> date \<Rightarrow> real \<Rightarrow> (PKPStrategy \<times> txn_type option) option" where
  "bid self dt close_price =
     (if total_units self > 0 then
        do {
          let base_bid_amt_X = bid_multiplier self * base_sip self;
          drop_pct \<leftarrow> py_truediv (pap self - close_price) (pap self);
          let bid_multiplier_factor =
            (if current_bid_stage self < 10 then
               (let next_multiplier = current_bid_stage self + 1;
                    required_drop = of_int next_multiplier * bid_trigger_drop self
                in if drop_pct \<ge> required_drop then next_multiplier else 0)
             else 0);
          if bid_multiplier_factor > 0 then
            do {
              let invest_amt = of_int bid_multiplier_factor * base_bid_amt_X;
              q \<leftarrow> py_truediv invest_amt close_price;
              let units_to_buy = py_int q;
              if units_to_buy > 0
              then map_option (\<lambda>s. (s, Some (BID bid_multiplier_factor)))
                     (bid_exec self dt close_price drop_pct bid_multiplier_factor units_to_buy)
              else Some (self, None)
            }
          else Some (self, None)
        }
      else Some (self, None))"

text \<open>Lines 244 to 273: the sale of \<open>units_calc\<close> units and its transaction.\<close>

definition sell_exec :: "PKPStrategy \<Rightarrow> date \<Rightarrow> real \<Rightarrow> real \<Rightarrow> int \<Rightarrow> PKPStrategy" where
  "sell_exec self dt close_price profit_val units_calc =
     (let sale_value = of_int units_calc * close_price;
          s1 = self\<lparr>total_units := total_units self - units_calc\<rparr>;
          s2 = (if total_units s1 > 0
                then s1\<lparr>pap := bia s1 / of_int (total_units s1)\<rparr>
                else s1\<lparr>pap := 0\<rparr>);
          invested_reduction = min sale_value (actual_invested s2);
          s3 = s2\<lparr>actual_invested := actual_invested s2 - invested_reduction\<rparr>;
          reserve_addition = sale_value - invested_reduction;
          s4 = s3\<lparr>profit_reserve := profit_reserve s3 + reserve_addition\<rparr>;
          ym_key = (year dt, month dt);
          s5 = s4\<lparr>monthly_profits :=
                     AList.update ym_key
                       ((case map_of (monthly_profits s4) ym_key of
                           None \<Rightarrow> 0 | Some v \<Rightarrow> v) + sale_value)
                       (monthly_profits s4)\<rparr>;
          s6 = s5\<lparr>current_bid_stage := 0\<rparr>;
          gain_pct = (if pap s6 > 0 then (close_price - pap s6) / pap s6 else 0)
      in log_transaction s6 dt SELL (- units_calc) close_price sale_value
           (actual_invested s6)
           (Gain_Profit_Recov (gain_pct * 100) profit_val invested_reduction))"



text \<open>Line 232: the target of the profit harvest.\<close>

definition target_threshold :: "PKPStrategy \<Rightarrow> real \<Rightarrow> real" where
  "target_threshold self close_price =
     max (min_profit_booking_amount self) (0.01 * (of_int (total_units self) * close_price))"

text \<open>Lines 224 to 273: the profit harvest.\<close>

definition sell :: "PKPStrategy \<Rightarrow> date \<Rightarrow> real \<Rightarrow> (PKPStrategy \<times> txn_type option) option" where
  "sell self dt close_price =
     (if total_units self > 0 then
        (let current_value = of_int (total_units self) * close_price;
             profit_val = current_value - bia self
         in if profit_val \<ge> target_threshold self close_price then
              do {
                q \<leftarrow> py_floordiv (target_threshold self close_price + close_price - 1)
                       close_price;
                let units_calc0 = py_int q;
                let units_calc = (if units_calc0 > total_units self then total_units self
                                  else units_calc0);
                if units_calc > 0
                then Some (sell_exec self dt close_price profit_val units_calc, Some SELL)
                else Some (self, None)
              }
            else Some (self, None))
      else Some (self, None))"

subsection \<open>One day, and the loop of \<^verbatim>\<open>run\<close>\<close>

text \<open>
  What one iteration of the loop leaves behind besides the object: the locals
  \<^verbatim>\<open>is_sip_day\<close> and \<^verbatim>\<open>action_taken\<close>.
\<close>

record day_log =
  is_sip_day :: bool
  action_taken :: "txn_type option"

definition process_row ::
  "PKPStrategy \<Rightarrow> nat \<Rightarrow> nat option \<Rightarrow> row \<Rightarrow> (PKPStrategy \<times> day_log) option" where
  "process_row self i prev_month r =
     do {
       let dt = date r;
       let close_price = close r;
       s1 \<leftarrow> lumpsum self i dt close_price;
       let current_month = month dt;
       let sip_day = (case prev_month of None \<Rightarrow> False | Some pm \<Rightarrow> current_month \<noteq> pm);
       if sip_day then
         do {
           (s2, action) \<leftarrow> sip s1 dt close_price;
           Some (s2, \<lparr>is_sip_day = sip_day, action_taken = action\<rparr>)
         }
       else
         do {
           (s2, action) \<leftarrow> bid s1 dt close_price;
           if action \<noteq> None then Some (s2, \<lparr>is_sip_day = sip_day, action_taken = action\<rparr>)
           else
             do {
               (s3, action') \<leftarrow> sell s2 dt close_price;
               Some (record_history s3 dt close_price,
                     \<lparr>is_sip_day = sip_day, action_taken = action'\<rparr>)
             }
         }
     }"

text \<open>
  The loop \<^verbatim>\<open>for i, row in enumerate(data)\<close>, with the local \<^verbatim>\<open>prev_month\<close> threaded
  through; it collects the day logs.
\<close>

fun run_loop ::
  "PKPStrategy \<Rightarrow> nat \<Rightarrow> nat option \<Rightarrow> row list \<Rightarrow> (PKPStrategy \<times> day_log list) option" where
  "run_loop self i prev_month [] = Some (self, [])"
| "run_loop self i prev_month (r # rs) =
     do {
       (s1, l) \<leftarrow> process_row self i prev_month r;
       (s2, ls) \<leftarrow> run_loop s1 (Suc i) (Some (month (date r))) rs;
       Some (s2, l # ls)
     }"

definition run_logs :: "PKPStrategy \<Rightarrow> row list \<Rightarrow> (PKPStrategy \<times> day_log list) option" where
  "run_logs self data = run_loop self 0 None data"

definition run :: "PKPStrategy \<Rightarrow> row list \<Rightarrow> PKPStrategy option" where
  "run self data = map_option fst (run_logs self data)"

subsection \<open>The sustained breakeven date of \<^verbatim>\<open>generate_report\<close> and \<^verbatim>\<open>get_metrics\<close>\<close>

text \<open>The first scan of both methods: the date of the last record above the tolerance.\<close>

definition last_positive_date :: "history_record list \<Rightarrow> date option" where
  "last_positive_date hist =
     foldl (\<lambda>lpd record. if h_actual_invested record > 1.0 then Some (h_date record) else lpd)
       None hist"

text \<open>
  Lines 315 to 340 of \<^verbatim>\<open>generate_report\<close>: what it assigns to the object (the rest prints).
\<close>

definition generate_report :: "PKPStrategy \<Rightarrow> PKPStrategy" where
  "generate_report self =
     (if portfolio_history self = [] then self
      else
        (let final_state = last (portfolio_history self)
         in case last_positive_date (portfolio_history self) of
              Some lpd \<Rightarrow>
                (if date_less lpd (h_date final_state) then
                   (case find (\<lambda>record. date_less lpd (h_date record)) (portfolio_history self) of
                      Some record \<Rightarrow> self\<lparr>sustained_breakeven_date := Some (h_date record)\<rparr>
                    | None \<Rightarrow> self)
                 else self)
            | None \<Rightarrow> self))"

text \<open>
  \<^verbatim>\<open>get_metrics\<close>: \<open>None\<close> is the empty dict. Of the returned dict the embedding keeps the
  entries that need no calendar arithmetic; \<^verbatim>\<open>break_even_date\<close> is the formatted date or
  the string \<^verbatim>\<open>"Not Reached"\<close>.
\<close>

datatype break_even = Not_Reached | Reached date

record metrics =
  m_symbol :: string
  m_base_inv_amt :: real
  m_max_actual_invested :: real
  m_actual_invested :: real
  m_market_value :: real
  m_cash_balance :: real
  m_break_even_date :: break_even
  m_invested_reg_sip :: real
  m_market_value_reg_sip :: real

definition get_metrics :: "PKPStrategy \<Rightarrow> metrics option" where
  "get_metrics self =
     (if portfolio_history self = [] then None
      else
        (let final_state = last (portfolio_history self);
             sustained =
               (case last_positive_date (portfolio_history self) of
                  Some lpd \<Rightarrow>
                    (if date_less lpd (h_date final_state) then
                       map_option h_date
                         (find (\<lambda>record. date_less lpd (h_date record)) (portfolio_history self))
                     else None)
                | None \<Rightarrow>
                    (if h_actual_invested (hd (portfolio_history self)) \<le> 0
                     then Some (h_date (hd (portfolio_history self)))
                     else None))
         in Some \<lparr> m_symbol = ticker self,
                   m_base_inv_amt = bia self,
                   m_max_actual_invested = max_actual_invested self,
                   m_actual_invested = actual_invested self,
                   m_market_value = h_portfolio_value final_state,
                   m_cash_balance = h_profit_reserve final_state,
                   m_break_even_date =
                     (case sustained of Some d \<Rightarrow> Reached d | None \<Rightarrow> Not_Reached),
                   m_invested_reg_sip = benchmark_invested self,
                   m_market_value_reg_sip =
                     of_int (benchmark_units self) * h_price final_state \<rparr>))"

subsection \<open>Invariants of a run\<close>

text \<open>The units held are never negative, and \<open>pap\<close> is the cost basis per unit held.\<close>

definition units_inv :: "PKPStrategy \<Rightarrow> bool" where
  "units_inv s \<longleftrightarrow>
     0 \<le> total_units s \<and>
     pap s = (if 0 < total_units s then bia s / of_int (total_units s) else 0)"

text \<open>With positive prices the cost basis is positive as soon as units are held.\<close>

definition basis_inv :: "PKPStrategy \<Rightarrow> bool" where
  "basis_inv s \<longleftrightarrow> 0 \<le> bia s \<and> (0 < total_units s \<longrightarrow> 0 < bia s)"

definition funds_nonneg :: "real \<Rightarrow> real \<Rightarrow> bool" where
  "funds_nonneg invested reserve \<longleftrightarrow> 0 \<le> invested \<and> 0 \<le> reserve"

definition funds_inv :: "PKPStrategy \<Rightarrow> bool" where
  "funds_inv s \<longleftrightarrow>
     funds_nonneg (actual_invested s) (profit_reserve s) \<and>
     list_all (\<lambda>h. funds_nonneg (h_actual_invested h) (h_profit_reserve h))
       (portfolio_history s) \<and>
     list_all (\<lambda>t. funds_nonneg (t_actual_invested t) (t_profit_reserve t)) (transactions s)"

definition stage_inv :: "PKPStrategy \<Rightarrow> bool" where
  "stage_inv s \<longleftrightarrow> 0 \<le> current_bid_stage s \<and> current_bid_stage s \<le> 10"

text \<open>
  The percentages of a transaction: \<^verbatim>\<open>pnl_pct\<close> is 0 when the cost basis is 0, and the
  \<^verbatim>\<open>gain_pct\<close> of a sale is 0 when \<open>pap\<close> is 0.
\<close>

definition pct_guarded :: "transaction \<Rightarrow> bool" where
  "pct_guarded t \<longleftrightarrow>
     (t_bia t = 0 \<longrightarrow> t_pnl_pct t = 0) \<and>
     (case t_notes t of
        Gain_Profit_Recov gain profit recov \<Rightarrow> t_pap t = 0 \<longrightarrow> gain = 0
      | _ \<Rightarrow> True)"

text \<open>What holds of the object after every rule, whatever the prices.\<close>

definition run_inv :: "PKPStrategy \<Rightarrow> bool" where
  "run_inv s \<longleftrightarrow>
     units_inv s \<and> funds_inv s \<and> stage_inv s \<and> list_all pct_guarded (transactions s)"

text \<open>
  A purchase that took the object from \<open>s\<close> to \<open>s'\<close> was funded from the reserve first:
  with \<open>c\<close> the amount of the transaction it logged and \<open>r\<close> the reserve before it, the
  reserve after it is \<open>max 0 (r - c)\<close> and the fresh capital added is \<open>max 0 (c - r)\<close>.
\<close>

definition funded_reserve_first :: "PKPStrategy \<Rightarrow> PKPStrategy \<Rightarrow> bool" where
  "funded_reserve_first s s' \<longleftrightarrow>
     transactions s' \<noteq> [] \<and> butlast (transactions s') = transactions s \<and>
     (let c = t_amount (last (transactions s')); r = profit_reserve s
      in profit_reserve s' = max 0 (r - c) \<and>
         actual_invested s' = actual_invested s + max 0 (c - r))"

text \<open>
  The regular purchases of the benchmark over an input, read off the input alone: on each
  record whose month differs from the month of the record before it (\<open>prev_month\<close> for the
  first one), \<open>int(amount / price)\<close> units when that is positive, at that price.
\<close>

fun contribution_units :: "real \<Rightarrow> nat option \<Rightarrow> row list \<Rightarrow> int" where
  "contribution_units amount prev_month [] = 0"
| "contribution_units amount prev_month (r # rs) =
     (if (case prev_month of None \<Rightarrow> False | Some pm \<Rightarrow> month (date r) \<noteq> pm)
         \<and> 0 < py_int (amount / close r)
      then py_int (amount / close r) else 0)
     + contribution_units amount (Some (month (date r))) rs"

fun contribution_cost :: "real \<Rightarrow> nat option \<Rightarrow> row list \<Rightarrow> real" where
  "contribution_cost amount prev_month [] = 0"
| "contribution_cost amount prev_month (r # rs) =
     (if (case prev_month of None \<Rightarrow> False | Some pm \<Rightarrow> month (date r) \<noteq> pm)
         \<and> 0 < py_int (amount / close r)
      then of_int (py_int (amount / close r)) * close r else 0)
     + contribution_cost amount (Some (month (date r))) rs"

subsection \<open>Example inputs\<close>

definition day1 :: date where "day1 = \<lparr>year = 2020, month = 1, day = 1\<rparr>"
definition day2 :: date where "day2 = \<lparr>year = 2020, month = 1, day = 2\<rparr>"
definition day3 :: date where "day3 = \<lparr>year = 2020, month = 2, day = 3\<rparr>"

text \<open>The defaults of the constructor, with a lumpsum of 100000.\<close>

definition example_strategy :: PKPStrategy where
  "example_strategy = PKPStrategy_init ''X'' 100000 10000 0.5 0.02 100000"

text \<open>A lumpsum at 100, a dip to 97 in the same month, a contribution day at 200.\<close>

definition example_data :: "row list" where
  "example_data =
     [\<lparr>date = day1, close = 100\<rparr>, \<lparr>date = day2, close = 97\<rparr>, \<lparr>date = day3, close = 200\<rparr>]"

text \<open>
  Scenario D of the specification: 1000 units held at a cost basis of 90000, all of it
  fresh capital, and no reserve.
\<close>

definition holding_strategy :: PKPStrategy where
  "holding_strategy =
     (PKPStrategy_init ''X'' 100000 10000 0.5 0.02 0)
       \<lparr>total_units := 1000, bia := 90000, pap := 90, actual_invested := 90000,
        has_invested := True\<rparr>"

text \<open>The same holding with a reserve of 30000.\<close>

definition reserve_strategy :: PKPStrategy where
  "reserve_strategy = holding_strategy\<lparr>profit_reserve := 30000\<rparr>"

text \<open>
  The defaults of the constructor with a lumpsum of 800040: 20001 units bought at 40, and
  the price at 50 on the next day.
\<close>

definition rounding_strategy :: PKPStrategy where
  "rounding_strategy = PKPStrategy_init ''X'' 100000 10000 0.5 0.02 800040"

definition rounding_data :: "row list" where
  "rounding_data = [\<lparr>date = day1, close = 40\<rparr>, \<lparr>date = day2, close = 50\<rparr>]"

text \<open>The defaults of the constructor, and one record whose price is above the contribution.\<close>

definition idle_strategy :: PKPStrategy where
  "idle_strategy = PKPStrategy_init ''X'' 100000 10000 0.5 0.02 0"

definition idle_data :: "row list" where
  "idle_data = [\<lparr>date = day1, close = 200000\<rparr>]"

text \<open>
  Two records in the same month of two consecutive years: 2020-01-15 and 2021-01-04, both
  at 100.
\<close>

definition gap_day1 :: date where "gap_day1 = \<lparr>year = 2020, month = 1, day = 15\<rparr>"
definition gap_day2 :: date where "gap_day2 = \<lparr>year = 2021, month = 1, day = 4\<rparr>"

definition gap_data :: "row list" where
  "gap_data = [\<lparr>date = gap_day1, close = 100\<rparr>, \<lparr>date = gap_day2, close = 100\<rparr>]"

text \<open>
  The defaults of the constructor with a lumpsum of 1000, and the prices 3.28 and 39.1:
  304 units are bought on the first day and 256 are sold on the second.
\<close>

definition recovery_strategy :: PKPStrategy where
  "recovery_strategy = PKPStrategy_init ''X'' 100000 10000 0.5 0.02 1000"

definition recovery_data :: "row list" where
  "recovery_data = [\<lparr>date = day1, close = 3.28\<rparr>, \<lparr>date = day2, close = 39.1\<rparr>]"


section \<open>Lemmas about the rules and the loop\<close>

lemma py_int_of_int [simp]: "py_int (of_int k) = k"
  by (simp add: py_int_def)

lemma py_int_pos_iff: "0 < py_int x \<longleftrightarrow> 1 \<le> x"
  by (auto simp: py_int_def)

lemma log_transaction_fields [simp]:
  "total_units (log_transaction s dt ty u p a ai n) = total_units s"
  "bia (log_transaction s dt ty u p a ai n) = bia s"
  "pap (log_transaction s dt ty u p a ai n) = pap s"
  "profit_reserve (log_transaction s dt ty u p a ai n) = profit_reserve s"
  "actual_invested (log_transaction s dt ty u p a ai n) = actual_invested s"
  "current_bid_stage (log_transaction s dt ty u p a ai n) = current_bid_stage s"
  "portfolio_history (log_transaction s dt ty u p a ai n) = portfolio_history s"
  "benchmark_units (log_transaction s dt ty u p a ai n) = benchmark_units s"
  "benchmark_invested (log_transaction s dt ty u p a ai n) = benchmark_invested s"
  "has_invested (log_transaction s dt ty u p a ai n) = has_invested s"
  "initial_lumpsum (log_transaction s dt ty u p a ai n) = initial_lumpsum s"
  "base_sip (log_transaction s dt ty u p a ai n) = base_sip s"
  by (simp_all add: log_transaction_def Let_def)

lemma log_transaction_transactions:
  "\<exists>tx. transactions (log_transaction s dt ty u p a ai n) = transactions s @ [tx]
     \<and> t_date tx = dt \<and> t_type tx = ty \<and> t_units tx = u \<and> t_price tx = p \<and> t_amount tx = a
     \<and> t_total_units tx = total_units s \<and> t_pap tx = pap s \<and> t_bia tx = bia s
     \<and> t_actual_invested tx = ai \<and> t_profit_reserve tx = profit_reserve s
     \<and> t_current_market_value tx = of_int (total_units s) * p
     \<and> t_pnl_pct tx = (if bia s > 0 then (of_int (total_units s) * p - bia s) / bia s else 0)
     \<and> t_notes tx = n"
  by (simp add: log_transaction_def Let_def)

lemma record_history_fields [simp]:
  "total_units (record_history s dt p) = total_units s"
  "bia (record_history s dt p) = bia s"
  "pap (record_history s dt p) = pap s"
  "profit_reserve (record_history s dt p) = profit_reserve s"
  "actual_invested (record_history s dt p) = actual_invested s"
  "current_bid_stage (record_history s dt p) = current_bid_stage s"
  "transactions (record_history s dt p) = transactions s"
  "benchmark_units (record_history s dt p) = benchmark_units s"
  "benchmark_invested (record_history s dt p) = benchmark_invested s"
  "initial_lumpsum (record_history s dt p) = initial_lumpsum s"
  "base_sip (record_history s dt p) = base_sip s"
  by (simp_all add: record_history_def Let_def)

lemma record_history_history:
  "\<exists>h. portfolio_history (record_history s dt p) = portfolio_history s @ [h]
     \<and> h_date h = dt \<and> h_units h = total_units s \<and> h_pap h = pap s \<and> h_price h = p
     \<and> h_portfolio_value h = of_int (total_units s) * p
     \<and> h_profit_reserve h = profit_reserve s
     \<and> h_total_equity h = of_int (total_units s) * p + profit_reserve s
     \<and> h_actual_invested h = actual_invested s"
  by (simp add: record_history_def Let_def)

lemma buy_reserve_first_Some:
  assumes "buy_reserve_first self dt p u = Some (s', afr)"
  shows "total_units self + u \<noteq> 0"
    and "total_units s' = total_units self + u"
    and "bia s' = bia self + of_int u * p"
    and "pap s' = (bia self + of_int u * p) / of_int (total_units self + u)"
    and "profit_reserve s' = profit_reserve self - min (of_int u * p) (profit_reserve self)"
    and "actual_invested s' =
           actual_invested self + (of_int u * p - min (of_int u * p) (profit_reserve self))"
    and "afr = min (of_int u * p) (profit_reserve self)"
    and "current_bid_stage s' = current_bid_stage self"
    and "transactions s' = transactions self"
    and "portfolio_history s' = portfolio_history self"
    and "benchmark_units s' = benchmark_units self"
    and "benchmark_invested s' = benchmark_invested self"
    and "initial_lumpsum s' = initial_lumpsum self"
    and "base_sip s' = base_sip self"
  using assms
  by (auto simp: buy_reserve_first_def py_truediv_def Let_def split: if_splits)

lemma buy_reserve_first_total:
  "total_units self + u \<noteq> 0 \<Longrightarrow> \<exists>r. buy_reserve_first self dt p u = Some r"
  by (simp add: buy_reserve_first_def py_truediv_def Let_def)

lemma lumpsum_exec_Some:
  assumes "lumpsum_exec self dt p u = Some s'"
  shows "total_units self + u \<noteq> 0"
    and "total_units s' = total_units self + u"
    and "bia s' = bia self + of_int u * p"
    and "pap s' = (bia self + of_int u * p) / of_int (total_units self + u)"
    and "profit_reserve s' = profit_reserve self"
    and "actual_invested s' = actual_invested self + of_int u * p"
    and "current_bid_stage s' = current_bid_stage self"
    and "portfolio_history s' = portfolio_history self"
    and "benchmark_units s' = benchmark_units self + u"
    and "benchmark_invested s' = benchmark_invested self + of_int u * p"
    and "initial_lumpsum s' = initial_lumpsum self"
    and "base_sip s' = base_sip self"
  using assms
  by (auto simp: lumpsum_exec_def py_truediv_def Let_def split: if_splits)

lemma lumpsum_exec_transactions:
  assumes "lumpsum_exec self dt p u = Some s'"
  shows "\<exists>tx. transactions s' = transactions self @ [tx]
     \<and> t_date tx = dt \<and> t_type tx = LUMPSUM \<and> t_units tx = u \<and> t_price tx = p
     \<and> t_amount tx = of_int u * p
     \<and> t_total_units tx = total_units s' \<and> t_pap tx = pap s' \<and> t_bia tx = bia s'
     \<and> t_actual_invested tx = actual_invested s' \<and> t_profit_reserve tx = profit_reserve s'
     \<and> t_pnl_pct tx = (if bia s' > 0 then (of_int (total_units s') * p - bia s') / bia s' else 0)
     \<and> t_notes tx = Initial_Investment"
  using assms
  by (auto simp: lumpsum_exec_def py_truediv_def log_transaction_def Let_def split: if_splits)

lemma lumpsum_exec_total:
  "total_units self + u \<noteq> 0 \<Longrightarrow> \<exists>s'. lumpsum_exec self dt p u = Some s'"
  by (simp add: lumpsum_exec_def py_truediv_def Let_def)

lemma sip_exec_Some:
  assumes "sip_exec self dt p u = Some s'"
  shows "total_units self + u \<noteq> 0"
    and "total_units s' = total_units self + u"
    and "bia s' = bia self + of_int u * p"
    and "pap s' = (bia self + of_int u * p) / of_int (total_units self + u)"
    and "profit_reserve s' = profit_reserve self - min (of_int u * p) (profit_reserve self)"
    and "actual_invested s' =
           actual_invested self + (of_int u * p - min (of_int u * p) (profit_reserve self))"
    and "current_bid_stage s' = current_bid_stage self"
    and "portfolio_history s' = portfolio_history self"
    and "benchmark_units s' = benchmark_units self"
    and "benchmark_invested s' = benchmark_invested self"
    and "initial_lumpsum s' = initial_lumpsum self"
    and "base_sip s' = base_sip self"
  using assms
  by (auto simp: sip_exec_def Let_def split: prod.splits bind_splits dest: buy_reserve_first_Some)


lemma sip_exec_transactions:
  assumes "sip_exec self dt p u = Some s'"
  shows "\<exists>tx. transactions s' = transactions self @ [tx]
     \<and> t_date tx = dt \<and> t_type tx = SIP \<and> t_units tx = u \<and> t_price tx = p
     \<and> t_amount tx = of_int u * p
     \<and> t_total_units tx = total_units s' \<and> t_pap tx = pap s' \<and> t_bia tx = bia s'
     \<and> t_actual_invested tx = actual_invested s' \<and> t_profit_reserve tx = profit_reserve s'
     \<and> t_pnl_pct tx = (if bia s' > 0 then (of_int (total_units s') * p - bia s') / bia s' else 0)
     \<and> t_notes tx = Reserve_used (min (of_int u * p) (profit_reserve self))"
proof -
  from assms obtain s1 afr where b: "buy_reserve_first self dt p u = Some (s1, afr)"
    and s': "s' = log_transaction s1 dt SIP u p (of_int u * p) (actual_invested s1) (Reserve_used afr)"
    by (auto simp: sip_exec_def Let_def split: prod.splits bind_splits)
  from log_transaction_transactions[of s1 dt SIP u p "of_int u * p" "actual_invested s1" "Reserve_used afr"]
  show ?thesis
    unfolding s' using buy_reserve_first_Some(7,9)[OF b] by auto
qed

lemma sip_exec_total:
  "total_units self + u \<noteq> 0 \<Longrightarrow> \<exists>s'. sip_exec self dt p u = Some s'"
  using buy_reserve_first_total[of self u dt p]
  by (auto simp: sip_exec_def Let_def)

lemma bid_exec_Some:
  assumes "bid_exec self dt p dp k u = Some s'"
  shows "total_units self + u \<noteq> 0"
    and "total_units s' = total_units self + u"
    and "bia s' = bia self + of_int u * p"
    and "pap s' = (bia self + of_int u * p) / of_int (total_units self + u)"
    and "profit_reserve s' = profit_reserve self - min (of_int u * p) (profit_reserve self)"
    and "actual_invested s' =
           actual_invested self + (of_int u * p - min (of_int u * p) (profit_reserve self))"
    and "current_bid_stage s' = current_bid_stage self + 1"
    and "benchmark_units s' = benchmark_units self"
    and "benchmark_invested s' = benchmark_invested self"
    and "initial_lumpsum s' = initial_lumpsum self"
    and "base_sip s' = base_sip self"
  using assms
  by (auto simp: bid_exec_def Let_def split: prod.splits bind_splits dest: buy_reserve_first_Some)

lemma bid_exec_transactions:
  assumes "bid_exec self dt p dp k u = Some s'"
  shows "\<exists>tx. transactions s' = transactions self @ [tx]
     \<and> t_date tx = dt \<and> t_type tx = BID k \<and> t_units tx = u \<and> t_price tx = p
     \<and> t_amount tx = of_int u * p
     \<and> t_total_units tx = total_units s' \<and> t_pap tx = pap s' \<and> t_bia tx = bia s'
     \<and> t_actual_invested tx = actual_invested s' \<and> t_profit_reserve tx = profit_reserve s'
     \<and> t_pnl_pct tx = (if bia s' > 0 then (of_int (total_units s') * p - bia s') / bia s' else 0)
     \<and> t_notes tx = Drop_Reserve_used (dp * 100) (min (of_int u * p) (profit_reserve self))"
proof -
  from assms obtain s1 afr where b: "buy_reserve_first self dt p u = Some (s1, afr)"
    and s': "s' = record_history (log_transaction
                (s1\<lparr>bids_executed_count := bids_executed_count s1 + 1,
                    current_bid_stage := current_bid_stage s1 + 1\<rparr>)
                dt (BID k) u p (of_int u * p) (actual_invested s1)
                (Drop_Reserve_used (dp * 100) afr)) dt p"
    by (auto simp: bid_exec_def Let_def split: prod.splits bind_splits)
  from log_transaction_transactions[of "s1\<lparr>bids_executed_count := bids_executed_count s1 + 1,
                    current_bid_stage := current_bid_stage s1 + 1\<rparr>" dt "BID k" u p "of_int u * p"
       "actual_invested s1" "Drop_Reserve_used (dp * 100) afr"]
  show ?thesis
    unfolding s' using buy_reserve_first_Some(7,9)[OF b] by auto
qed

lemma bid_exec_history:
  assumes "bid_exec self dt p dp k u = Some s'"
  shows "\<exists>h. portfolio_history s' = portfolio_history self @ [h]
     \<and> h_date h = dt \<and> h_units h = total_units s' \<and> h_pap h = pap s' \<and> h_price h = p
     \<and> h_profit_reserve h = profit_reserve s'
     \<and> h_actual_invested h = actual_invested s'"
proof -
  from assms obtain s1 afr where b: "buy_reserve_first self dt p u = Some (s1, afr)"
    and s': "s' = record_history (log_transaction
                (s1\<lparr>bids_executed_count := bids_executed_count s1 + 1,
                    current_bid_stage := current_bid_stage s1 + 1\<rparr>)
                dt (BID k) u p (of_int u * p) (actual_invested s1)
                (Drop_Reserve_used (dp * 100) afr)) dt p"
    by (auto simp: bid_exec_def Let_def split: prod.splits bind_splits)
  from record_history_history[of "log_transaction
                (s1\<lparr>bids_executed_count := bids_executed_count s1 + 1,
                    current_bid_stage := current_bid_stage s1 + 1\<rparr>)
                dt (BID k) u p (of_int u * p) (actual_invested s1)
                (Drop_Reserve_used (dp * 100) afr)" dt p]
  show ?thesis
    unfolding s' using buy_reserve_first_Some(10)[OF b] by auto
qed

lemma bid_exec_total:
  "total_units self + u \<noteq> 0 \<Longrightarrow> \<exists>s'. bid_exec self dt p dp k u = Some s'"
  using buy_reserve_first_total[of self u dt p]
  by (auto simp: bid_exec_def Let_def)

lemma sell_exec_fields:
  "total_units (sell_exec s dt p pv u) = total_units s - u"
  "bia (sell_exec s dt p pv u) = bia s"
  "pap (sell_exec s dt p pv u) =
     (if total_units s - u > 0 then bia s / of_int (total_units s - u) else 0)"
  "actual_invested (sell_exec s dt p pv u) =
     actual_invested s - min (of_int u * p) (actual_invested s)"
  "profit_reserve (sell_exec s dt p pv u) =
     profit_reserve s + (of_int u * p - min (of_int u * p) (actual_invested s))"
  "current_bid_stage (sell_exec s dt p pv u) = 0"
  "portfolio_history (sell_exec s dt p pv u) = portfolio_history s"
  "benchmark_units (sell_exec s dt p pv u) = benchmark_units s"
  "benchmark_invested (sell_exec s dt p pv u) = benchmark_invested s"
  "initial_lumpsum (sell_exec s dt p pv u) = initial_lumpsum s"
  "base_sip (sell_exec s dt p pv u) = base_sip s"
  by (simp_all add: sell_exec_def Let_def)

lemma sell_exec_transactions:
  "\<exists>tx. transactions (sell_exec s dt p pv u) = transactions s @ [tx]
     \<and> t_date tx = dt \<and> t_type tx = SELL \<and> t_units tx = - u \<and> t_price tx = p
     \<and> t_amount tx = of_int u * p
     \<and> t_total_units tx = total_units (sell_exec s dt p pv u)
     \<and> t_pap tx = pap (sell_exec s dt p pv u)
     \<and> t_bia tx = bia (sell_exec s dt p pv u)
     \<and> t_actual_invested tx = actual_invested (sell_exec s dt p pv u)
     \<and> t_profit_reserve tx = profit_reserve (sell_exec s dt p pv u)
     \<and> t_pnl_pct tx = (if bia s > 0 then (of_int (total_units s - u) * p - bia s) / bia s else 0)
     \<and> t_notes tx = Gain_Profit_Recov
          ((if pap (sell_exec s dt p pv u) > 0
            then (p - pap (sell_exec s dt p pv u)) / pap (sell_exec s dt p pv u) else 0) * 100)
          pv (min (of_int u * p) (actual_invested s))"
  by (simp add: sell_exec_def log_transaction_def Let_def)


lemma lumpsum_cases:
  assumes "lumpsum s i dt p = Some s'"
  shows "s' = s \<or>
     (i = 0 \<and> 0 < initial_lumpsum s \<and> p \<noteq> 0 \<and> 0 < py_int (initial_lumpsum s / p)
        \<and> lumpsum_exec s dt p (py_int (initial_lumpsum s / p)) = Some s')"
  using assms
  by (auto simp: lumpsum_def py_truediv_def Let_def split: if_splits bind_splits)

lemma lumpsum_total:
  assumes "p \<noteq> 0" and "0 \<le> total_units s"
  shows "\<exists>s'. lumpsum s i dt p = Some s'"
  using assms lumpsum_exec_total[of s "py_int (initial_lumpsum s / p)" dt p]
  by (auto simp: lumpsum_def py_truediv_def Let_def)

lemma sell_cases:
  assumes "sell s dt p = Some (s', a)"
  shows "(a = None \<and> s' = s) \<or>
     (a = Some SELL \<and> 0 < total_units s \<and> p \<noteq> 0
        \<and> target_threshold s p \<le> of_int (total_units s) * p - bia s
        \<and> (\<exists>u. u = min (total_units s) \<lfloor>(target_threshold s p + p - 1) / p\<rfloor> \<and> 0 < u
              \<and> s' = sell_exec s dt p (of_int (total_units s) * p - bia s) u))"
  using assms
  by (auto simp: sell_def py_floordiv_def Let_def min_def split: if_splits bind_splits)

lemma sell_total:
  assumes "p \<noteq> 0"
  shows "\<exists>r. sell s dt p = Some r"
  using assms by (auto simp: sell_def py_floordiv_def Let_def)

lemma bid_cases:
  assumes "bid s dt p = Some (s', a)"
  shows "(a = None \<and> s' = s) \<or>
     (0 < total_units s \<and> pap s \<noteq> 0 \<and> p \<noteq> 0 \<and> current_bid_stage s < 10
        \<and> a = Some (BID (current_bid_stage s + 1))
        \<and> of_int (current_bid_stage s + 1) * bid_trigger_drop s \<le> (pap s - p) / pap s
        \<and> (\<exists>u. u = py_int (of_int (current_bid_stage s + 1) * (bid_multiplier s * base_sip s) / p)
              \<and> 0 < u
              \<and> bid_exec s dt p ((pap s - p) / pap s) (current_bid_stage s + 1) u = Some s'))"
  using assms
  by (auto simp: bid_def py_truediv_def Let_def split: if_splits bind_splits)

lemma bid_total:
  assumes "p \<noteq> 0" and "0 \<le> total_units s" and "0 < total_units s \<longrightarrow> pap s \<noteq> 0"
  shows "\<exists>r. bid s dt p = Some r"
proof -
  have "\<And>u dp k. 0 < u \<Longrightarrow> \<exists>s'. bid_exec s dt p dp k u = Some s'"
    using assms(2) by (intro bid_exec_total) linarith
  then show ?thesis
    using assms by (auto simp: bid_def py_truediv_def Let_def)
qed


lemma benchmark_sip_Some:
  assumes "benchmark_sip s p = Some s2"
  shows "p \<noteq> 0"
    and "total_units s2 = total_units s"
    and "bia s2 = bia s"
    and "pap s2 = pap s"
    and "profit_reserve s2 = profit_reserve s"
    and "actual_invested s2 = actual_invested s"
    and "current_bid_stage s2 = current_bid_stage s"
    and "transactions s2 = transactions s"
    and "portfolio_history s2 = portfolio_history s"
    and "initial_lumpsum s2 = initial_lumpsum s"
    and "current_sip_amount s2 = base_sip s"
    and "benchmark_units s2 = benchmark_units s +
           (if 0 < py_int (base_sip s / p) then py_int (base_sip s / p) else 0)"
    and "benchmark_invested s2 = benchmark_invested s +
           (if 0 < py_int (base_sip s / p) then of_int (py_int (base_sip s / p)) * p else 0)"
    and "base_sip s2 = base_sip s"
  using assms
  by (auto simp: benchmark_sip_def py_truediv_def Let_def split: if_splits)

lemma benchmark_sip_total: "p \<noteq> 0 \<Longrightarrow> \<exists>s2. benchmark_sip s p = Some s2"
  by (simp add: benchmark_sip_def py_truediv_def Let_def)

lemma sip_cases:
  assumes "sip s dt p = Some (s', a)"
  shows "\<exists>s2 s3. benchmark_sip s p = Some s2 \<and> p \<noteq> 0 \<and> s' = record_history s3 dt p
     \<and> ((a = None \<and> s3 = s2) \<or>
        (a = Some SIP \<and> (\<exists>u. u = py_int (base_sip s / p) \<and> 0 < u
             \<and> sip_exec s2 dt p u = Some s3)))"
  using assms
  by (auto simp: sip_def py_truediv_def Let_def
      split: if_splits bind_splits prod.splits dest: benchmark_sip_Some(11))

lemma sip_total:
  assumes "p \<noteq> 0" and "0 \<le> total_units s"
  shows "\<exists>r. sip s dt p = Some r"
proof -
  obtain s2 where s2: "benchmark_sip s p = Some s2"
    using benchmark_sip_total[OF assms(1)] by blast
  have "\<And>u. 0 < u \<Longrightarrow> \<exists>s'. sip_exec s2 dt p u = Some s'"
    using assms(2) benchmark_sip_Some(2)[OF s2] by (intro sip_exec_total) linarith
  then have h: "\<And>u. 0 < u \<Longrightarrow> \<exists>s'. sip_exec s2 dt p u = Some s'" .
  show ?thesis
  proof (cases "0 < py_int (current_sip_amount s2 / p)")
    case True
    then obtain s3 where "sip_exec s2 dt p (py_int (current_sip_amount s2 / p)) = Some s3"
      using h by blast
    then show ?thesis
      using assms s2 True by (simp add: sip_def py_truediv_def Let_def)
  next
    case False
    then show ?thesis
      using assms s2 by (simp add: sip_def py_truediv_def Let_def)
  qed
qed

lemma process_row_cases:
  assumes "process_row s i pm r = Some (s', l)"
  shows "\<exists>s1. lumpsum s i (date r) (close r) = Some s1
     \<and> is_sip_day l = (case pm of None \<Rightarrow> False | Some m \<Rightarrow> month (date r) \<noteq> m)
     \<and> ((is_sip_day l \<and> sip s1 (date r) (close r) = Some (s', action_taken l)) \<or>
        (\<not> is_sip_day l \<and> action_taken l \<noteq> None
           \<and> bid s1 (date r) (close r) = Some (s', action_taken l)) \<or>
        (\<not> is_sip_day l \<and> bid s1 (date r) (close r) = Some (s1, None)
           \<and> (\<exists>s3. sell s1 (date r) (close r) = Some (s3, action_taken l)
                 \<and> s' = record_history s3 (date r) (close r))))"
  using assms
  by (auto simp: process_row_def Let_def
      split: if_splits bind_splits prod.splits option.splits dest: bid_cases)

lemma process_row_total:
  assumes "close r \<noteq> 0" and "0 \<le> total_units s"
    and "\<And>s1. lumpsum s i (date r) (close r) = Some s1 \<Longrightarrow>
           0 \<le> total_units s1 \<and> (0 < total_units s1 \<longrightarrow> pap s1 \<noteq> 0)"
  shows "\<exists>res. process_row s i pm r = Some res"
proof -
  obtain s1 where s1: "lumpsum s i (date r) (close r) = Some s1"
    using lumpsum_total[OF assms(1,2)] by blast
  from assms(3)[OF s1] have u1: "0 \<le> total_units s1" and p1: "0 < total_units s1 \<longrightarrow> pap s1 \<noteq> 0"
    by auto
  obtain rs where rs: "sip s1 (date r) (close r) = Some rs"
    using sip_total[OF assms(1) u1] by blast
  obtain rb where rb: "bid s1 (date r) (close r) = Some rb"
    using bid_total[OF assms(1) u1 p1] by blast
  obtain s2 a where rb': "rb = (s2, a)" by (cases rb)
  obtain rsell where rsell: "sell s2 (date r) (close r) = Some rsell"
    using sell_total[OF assms(1)] by blast
  show ?thesis
    using s1 rs rb rb' rsell
    by (auto simp: process_row_def Let_def split: prod.splits option.splits)
qed


subsection \<open>The loop\<close>

lemma run_loop_length:
  "run_loop s i pm data = Some (s', ls) \<Longrightarrow> length ls = length data"
  by (induction data arbitrary: s i pm ls) (auto split: bind_splits prod.splits)

lemma run_loop_preserves:
  assumes "run_loop s i pm data = Some (s', ls)" and "P s"
    and "\<And>s i pm r s' l. r \<in> set data \<Longrightarrow> P s \<Longrightarrow> process_row s i pm r = Some (s', l) \<Longrightarrow> P s'"
  shows "P s'"
  using assms
proof (induction data arbitrary: s i pm ls)
  case Nil
  then show ?case by simp
next
  case (Cons r rs)
  from Cons.prems(1) obtain s1 l ls' where
    step: "process_row s i pm r = Some (s1, l)" and
    rest: "run_loop s1 (Suc i) (Some (month (date r))) rs = Some (s', ls')"
    by (auto split: bind_splits prod.splits)
  have p1: "P s1" using Cons.prems(3)[OF _ Cons.prems(2) step] by simp
  show ?case
  proof (rule Cons.IH[OF rest p1])
    fix t j qm r' t' l'
    assume "r' \<in> set rs" "P t" "process_row t j qm r' = Some (t', l')"
    then show "P t'" using Cons.prems(3)[of r' t j qm t' l'] by simp
  qed
qed

lemma run_loop_total:
  assumes "P s"
    and "\<And>s i pm r. r \<in> set data \<Longrightarrow> P s \<Longrightarrow> \<exists>s' l. process_row s i pm r = Some (s', l) \<and> P s'"
  shows "\<exists>s' ls. run_loop s i pm data = Some (s', ls) \<and> P s'"
  using assms
proof (induction data arbitrary: s i pm)
  case Nil
  then show ?case by simp
next
  case (Cons r rs)
  obtain s1 l where step: "process_row s i pm r = Some (s1, l)" and p1: "P s1"
    using Cons.prems(2)[OF _ Cons.prems(1), of r i pm] by auto
  have "\<exists>s' ls. run_loop s1 (Suc i) (Some (month (date r))) rs = Some (s', ls) \<and> P s'"
  proof (rule Cons.IH[OF p1])
    fix t j qm r'
    assume "r' \<in> set rs" "P t"
    then show "\<exists>t' l'. process_row t j qm r' = Some (t', l') \<and> P t'"
      using Cons.prems(2)[of r' t j qm] by simp
  qed
  then show ?case using step by auto
qed

lemma run_loop_append:
  "run_loop s i pm (xs @ ys) =
     do {
       (s1, l1) \<leftarrow> run_loop s i pm xs;
       (s2, l2) \<leftarrow> run_loop s1 (i + length xs)
                    (if xs = [] then pm else Some (month (date (last xs)))) ys;
       Some (s2, l1 @ l2)
     }"
proof (induction xs arbitrary: s i pm)
  case Nil
  show ?case by (auto split: bind_splits prod.splits)
next
  case (Cons x xs)
  show ?case
    by (cases "process_row s i pm x")
       (auto simp: Cons.IH split: bind_splits prod.splits)
qed

lemma run_logs_step:
  assumes "run_logs self data = Some (s, logs)" and "i < length data"
  shows "\<exists>si si'. run_logs self (take i data) = Some (si, take i logs)
     \<and> process_row si i (if i = 0 then None else Some (month (date (data ! (i - 1)))))
          (data ! i) = Some (si', logs ! i)
     \<and> run_logs self (take (Suc i) data) = Some (si', take (Suc i) logs)
     \<and> run_loop si' (Suc i) (Some (month (date (data ! i)))) (drop (Suc i) data) =
          Some (s, drop (Suc i) logs)"
proof -
  have len: "length logs = length data"
    using assms(1) run_loop_length by (simp add: run_logs_def)
  have split: "data = take i data @ (data ! i) # drop (Suc i) data"
    using assms(2) by (simp add: id_take_nth_drop)
  let ?pm = "if take i data = [] then None else Some (month (date (last (take i data))))"
  have pm: "?pm = (if i = 0 then None else Some (month (date (data ! (i - 1)))))"
    using assms(2) by (cases i) (auto simp: last_conv_nth min_def)
  have "run_loop self 0 None (take i data @ (data ! i) # drop (Suc i) data) = Some (s, logs)"
    using assms(1) split by (simp add: run_logs_def)
  then obtain si l1 l2 where
    a: "run_loop self 0 None (take i data) = Some (si, l1)" and
    b: "run_loop si (length (take i data)) ?pm ((data ! i) # drop (Suc i) data) = Some (s, l2)" and
    c: "logs = l1 @ l2"
    unfolding run_loop_append by (auto split: bind_splits prod.splits)
  from b obtain si' l ls where
    d: "process_row si (length (take i data)) ?pm (data ! i) = Some (si', l)" and
    e: "l2 = l # ls" and
    r: "run_loop si' (Suc (length (take i data))) (Some (month (date (data ! i))))
          (drop (Suc i) data) = Some (s, ls)"
    by (auto split: bind_splits prod.splits)
  have l1: "length l1 = i"
    using run_loop_length[OF a] assms(2) by simp
  have t1: "take i logs = l1" and nth: "logs ! i = l" and t2: "take (Suc i) logs = l1 @ [l]"
    and t3: "drop (Suc i) logs = ls"
    using c e l1 by (simp_all add: nth_append)
  have li: "length (take i data) = i" using assms(2) by simp
  have f: "run_loop self 0 None (take i data @ [data ! i]) = Some (si', l1 @ [l])"
    unfolding run_loop_append using a d li by simp
  have "take (Suc i) data = take i data @ [data ! i]"
    using assms(2) by (simp add: take_Suc_conv_app_nth)
  then show ?thesis
    using a d f r t1 nth t2 t3 pm li by (auto simp: run_logs_def)
qed


subsection \<open>The invariant that needs no assumption on the prices\<close>

lemma run_inv_init: "run_inv (PKPStrategy_init tk sa mp bm bd l)"
  by (simp add: run_inv_def units_inv_def funds_inv_def funds_nonneg_def stage_inv_def
      PKPStrategy_init_def)

lemma run_inv_same:
  assumes "run_inv s"
    and "total_units s' = total_units s" and "bia s' = bia s" and "pap s' = pap s"
    and "profit_reserve s' = profit_reserve s" and "actual_invested s' = actual_invested s"
    and "current_bid_stage s' = current_bid_stage s"
    and "transactions s' = transactions s" and "portfolio_history s' = portfolio_history s"
  shows "run_inv s'"
  using assms by (simp add: run_inv_def units_inv_def funds_inv_def stage_inv_def)

lemma run_inv_record_history:
  assumes "run_inv s"
  shows "run_inv (record_history s dt p)"
proof -
  obtain h where "portfolio_history (record_history s dt p) = portfolio_history s @ [h]"
    "h_actual_invested h = actual_invested s" "h_profit_reserve h = profit_reserve s"
    using record_history_history[of s dt p] by blast
  then show ?thesis
    using assms by (simp add: run_inv_def units_inv_def funds_inv_def stage_inv_def)
qed

lemma run_inv_purchase:
  assumes "run_inv s" and "0 < u"
    and "total_units s' = total_units s + u"
    and "bia s' = bia s + of_int u * p"
    and "pap s' = (bia s + of_int u * p) / of_int (total_units s + u)"
    and "0 \<le> actual_invested s'" and "0 \<le> profit_reserve s'"
    and "current_bid_stage s' = current_bid_stage s \<or>
         (current_bid_stage s < 10 \<and> current_bid_stage s' = current_bid_stage s + 1)"
    and "transactions s' = transactions s @ [tx]"
    and "t_actual_invested tx = actual_invested s'" and "t_profit_reserve tx = profit_reserve s'"
    and "pct_guarded tx"
    and "portfolio_history s' = portfolio_history s \<or>
         (\<exists>h. portfolio_history s' = portfolio_history s @ [h]
            \<and> h_actual_invested h = actual_invested s' \<and> h_profit_reserve h = profit_reserve s')"
  shows "run_inv s'"
proof -
  have "units_inv s'"
    using assms(1-5) by (simp add: run_inv_def units_inv_def)
  moreover have "stage_inv s'"
    using assms(1,8) by (auto simp: run_inv_def stage_inv_def)
  moreover have "funds_inv s'"
    using assms(1,6,7,9,10,11,13) by (auto simp: run_inv_def funds_inv_def funds_nonneg_def)
  moreover have "list_all pct_guarded (transactions s')"
    using assms(1,9,12) by (simp add: run_inv_def)
  ultimately show ?thesis by (simp add: run_inv_def)
qed

lemma pct_guardedI:
  assumes "t_pnl_pct tx = (if b > 0 then x else 0)" and "t_bia tx = b"
    and "\<And>g pr rc. t_notes tx = Gain_Profit_Recov g pr rc \<Longrightarrow> t_pap tx = 0 \<Longrightarrow> g = 0"
  shows "pct_guarded tx"
  using assms by (auto simp: pct_guarded_def split: txn_notes.splits)

lemma lumpsum_price_pos:
  assumes "0 < l" and "0 < py_int (l / p)"
  shows "0 < p"
proof (rule ccontr)
  assume "\<not> 0 < p"
  then have "l / p \<le> 0" using assms(1) by (simp add: divide_nonpos_neg divide_le_0_iff)
  then show False using assms(2) by (simp add: py_int_pos_iff)
qed

lemma run_inv_lumpsum:
  assumes "run_inv s" and "lumpsum s i dt p = Some s'"
  shows "run_inv s'"
proof -
  from lumpsum_cases[OF assms(2)] consider "s' = s"
    | u where "0 < initial_lumpsum s" "u = py_int (initial_lumpsum s / p)" "0 < u"
        "lumpsum_exec s dt p u = Some s'"
    by auto
  then show ?thesis
  proof cases
    case 1
    then show ?thesis using assms(1) by simp
  next
    case 2
    note e = lumpsum_exec_Some[OF 2(4)]
    have pp: "0 < p" using lumpsum_price_pos 2(1,2,3) by blast
    obtain tx where tx: "transactions s' = transactions s @ [tx]"
      "t_actual_invested tx = actual_invested s'" "t_profit_reserve tx = profit_reserve s'"
      "t_bia tx = bia s'"
      "t_pnl_pct tx = (if bia s' > 0 then (of_int (total_units s') * p - bia s') / bia s' else 0)"
      "t_notes tx = Initial_Investment"
      using lumpsum_exec_transactions[OF 2(4)] by blast
    have g: "pct_guarded tx"
      using tx(4,5,6) by (intro pct_guardedI[of tx "bia s'"]) auto
    have f: "funds_nonneg (actual_invested s) (profit_reserve s)"
      using assms(1) by (simp add: run_inv_def funds_inv_def)
    have "0 \<le> of_int u * p" using 2(3) pp by simp
    then have "0 \<le> actual_invested s'" "0 \<le> profit_reserve s'"
      using e(5,6) f by (simp_all add: funds_nonneg_def)
    then show ?thesis
      using run_inv_purchase[OF assms(1) 2(3) e(2,3,4) _ _ _ tx(1,2,3) g] e(7,8) by simp
  qed
qed

lemma reserve_first_nonneg:
  fixes c r a :: real
  assumes "0 \<le> a" and "0 \<le> r"
  shows "0 \<le> a + (c - min c r)" and "0 \<le> r - min c r"
  using assms by (auto simp: min_def)

lemma run_inv_sip:
  assumes "run_inv s" and "sip s dt p = Some (s', a)"
  shows "run_inv s'"
proof -
  from sip_cases[OF assms(2)] obtain s2 s3 where
    b: "benchmark_sip s p = Some s2" and s': "s' = record_history s3 dt p" and
    alt: "(a = None \<and> s3 = s2) \<or> (\<exists>u. 0 < u \<and> sip_exec s2 dt p u = Some s3)"
    by auto
  note bs = benchmark_sip_Some[OF b]
  have i2: "run_inv s2"
    using run_inv_same[OF assms(1) bs(2,3,4,5,6,7,8,9)] .
  have "run_inv s3"
  proof (cases "s3 = s2")
    case True
    then show ?thesis using i2 by simp
  next
    case False
    then obtain u where u: "0 < u" and ex: "sip_exec s2 dt p u = Some s3"
      using alt by auto
    note e = sip_exec_Some[OF ex]
    obtain tx where tx: "transactions s3 = transactions s2 @ [tx]"
      "t_actual_invested tx = actual_invested s3" "t_profit_reserve tx = profit_reserve s3"
      "t_bia tx = bia s3"
      "t_pnl_pct tx = (if bia s3 > 0 then (of_int (total_units s3) * p - bia s3) / bia s3 else 0)"
      "t_notes tx = Reserve_used (min (of_int u * p) (profit_reserve s2))"
      using sip_exec_transactions[OF ex] by blast
    have g: "pct_guarded tx"
      using tx(4,5,6) by (intro pct_guardedI[of tx "bia s3"]) auto
    have f: "0 \<le> actual_invested s2" "0 \<le> profit_reserve s2"
      using i2 by (simp_all add: run_inv_def funds_inv_def funds_nonneg_def)
    have "0 \<le> actual_invested s3" "0 \<le> profit_reserve s3"
      using e(5,6) reserve_first_nonneg[OF f] by simp_all
    then show ?thesis
      using run_inv_purchase[OF i2 u e(2,3,4) _ _ _ tx(1,2,3) g] e(7,8) by simp
  qed
  then show ?thesis
    unfolding s' by (rule run_inv_record_history)
qed

lemma run_inv_bid:
  assumes "run_inv s" and "bid s dt p = Some (s', a)"
  shows "run_inv s'"
proof -
  from bid_cases[OF assms(2)] consider "s' = s"
    | u dp where "current_bid_stage s < 10" "0 < u"
        "bid_exec s dt p dp (current_bid_stage s + 1) u = Some s'"
    by auto
  then show ?thesis
  proof cases
    case 1
    then show ?thesis using assms(1) by simp
  next
    case 2
    note e = bid_exec_Some[OF 2(3)]
    obtain tx where tx: "transactions s' = transactions s @ [tx]"
      "t_actual_invested tx = actual_invested s'" "t_profit_reserve tx = profit_reserve s'"
      "t_bia tx = bia s'"
      "t_pnl_pct tx = (if bia s' > 0 then (of_int (total_units s') * p - bia s') / bia s' else 0)"
      "t_notes tx = Drop_Reserve_used (dp * 100) (min (of_int u * p) (profit_reserve s))"
      using bid_exec_transactions[OF 2(3)] by blast
    obtain h where h: "portfolio_history s' = portfolio_history s @ [h]"
      "h_actual_invested h = actual_invested s'" "h_profit_reserve h = profit_reserve s'"
      using bid_exec_history[OF 2(3)] by blast
    have g: "pct_guarded tx"
      using tx(4,5,6) by (intro pct_guardedI[of tx "bia s'"]) auto
    have f: "0 \<le> actual_invested s" "0 \<le> profit_reserve s"
      using assms(1) by (simp_all add: run_inv_def funds_inv_def funds_nonneg_def)
    have "0 \<le> actual_invested s'" "0 \<le> profit_reserve s'"
      using e(5,6) reserve_first_nonneg[OF f] by simp_all
    then show ?thesis
      using run_inv_purchase[OF assms(1) 2(2) e(2,3,4) _ _ _ tx(1,2,3) g] e(7) 2(1) h by blast
  qed
qed

lemma run_inv_sell_exec:
  assumes "run_inv s" and "0 < u" and "u \<le> total_units s"
  shows "run_inv (sell_exec s dt p pv u)"
proof -
  let ?s' = "sell_exec s dt p pv u"
  obtain tx where tx: "transactions ?s' = transactions s @ [tx]"
    "t_actual_invested tx = actual_invested ?s'" "t_profit_reserve tx = profit_reserve ?s'"
    "t_pap tx = pap ?s'" "t_bia tx = bia s"
    "t_pnl_pct tx = (if bia s > 0 then (of_int (total_units s - u) * p - bia s) / bia s else 0)"
    "t_notes tx = Gain_Profit_Recov
          ((if pap ?s' > 0 then (p - pap ?s') / pap ?s' else 0) * 100)
          pv (min (of_int u * p) (actual_invested s))"
    using sell_exec_transactions[of s dt p pv u] by (auto simp: sell_exec_fields)
  have g: "pct_guarded tx"
    using tx(4,6,7) tx(5) by (intro pct_guardedI[of tx "bia s"]) auto
  have f: "0 \<le> actual_invested s" "0 \<le> profit_reserve s"
    using assms(1) by (simp_all add: run_inv_def funds_inv_def funds_nonneg_def)
  have nn: "0 \<le> actual_invested ?s'" "0 \<le> profit_reserve ?s'"
    using f by (auto simp: sell_exec_fields min_def)
  have "units_inv ?s'"
    using assms by (simp add: run_inv_def units_inv_def sell_exec_fields)
  moreover have "stage_inv ?s'"
    by (simp add: stage_inv_def sell_exec_fields)
  moreover have "funds_inv ?s'"
    using assms(1) nn tx(1,2,3)
    by (simp add: run_inv_def funds_inv_def funds_nonneg_def sell_exec_fields(7))
  moreover have "list_all pct_guarded (transactions ?s')"
    using assms(1) tx(1) g by (simp add: run_inv_def)
  ultimately show ?thesis by (simp add: run_inv_def)
qed

lemma run_inv_sell:
  assumes "run_inv s" and "sell s dt p = Some (s', a)"
  shows "run_inv s'"
  using sell_cases[OF assms(2)] assms(1) run_inv_sell_exec[OF assms(1)]
  by auto

lemma run_inv_process_row:
  assumes "run_inv s" and "process_row s i pm r = Some (s', l)"
  shows "run_inv s'"
proof -
  from process_row_cases[OF assms(2)] obtain s1 where
    l: "lumpsum s i (date r) (close r) = Some s1" and
    alt: "sip s1 (date r) (close r) = Some (s', action_taken l) \<or>
          bid s1 (date r) (close r) = Some (s', action_taken l) \<or>
          (\<exists>s3. sell s1 (date r) (close r) = Some (s3, action_taken l)
                 \<and> s' = record_history s3 (date r) (close r))"
    by blast
  have i1: "run_inv s1" using run_inv_lumpsum[OF assms(1) l] .
  from alt show ?thesis
    using run_inv_sip[OF i1] run_inv_bid[OF i1] run_inv_sell[OF i1] run_inv_record_history
    by blast
qed

lemma run_inv_run_loop:
  assumes "run_inv s" and "run_loop s i pm data = Some (s', ls)"
  shows "run_inv s'"
  using run_loop_preserves[OF assms(2), of run_inv] assms(1) run_inv_process_row by blast


subsection \<open>Positive prices: the cost basis, and no division by zero\<close>

lemma basis_inv_init: "basis_inv (PKPStrategy_init tk sa mp bm bd l)"
  by (simp add: basis_inv_def PKPStrategy_init_def)

lemma basis_inv_purchase:
  assumes "basis_inv s" and "0 < u" and "0 < p"
    and "bia s' = bia s + of_int u * p"
  shows "basis_inv s'"
proof -
  have "0 < of_int u * p" using assms(2,3) by simp
  then show ?thesis using assms(1,4) by (simp add: basis_inv_def)
qed

lemma basis_inv_record_history [simp]:
  "basis_inv (record_history s dt p) = basis_inv s"
  by (simp add: basis_inv_def)

lemma basis_inv_lumpsum:
  assumes "basis_inv s" and "0 < p" and "lumpsum s i dt p = Some s'"
  shows "basis_inv s'"
  using lumpsum_cases[OF assms(3)] assms(1,2)
  by (auto dest: lumpsum_exec_Some(3) intro: basis_inv_purchase)

lemma basis_inv_sip:
  assumes "basis_inv s" and "0 < p" and "sip s dt p = Some (s', a)"
  shows "basis_inv s'"
proof -
  from sip_cases[OF assms(3)] obtain s2 s3 where
    b: "benchmark_sip s p = Some s2" and s': "s' = record_history s3 dt p" and
    alt: "(a = None \<and> s3 = s2) \<or> (\<exists>u. 0 < u \<and> sip_exec s2 dt p u = Some s3)"
    by auto
  have i2: "basis_inv s2"
    using assms(1) benchmark_sip_Some(2,3)[OF b] by (simp add: basis_inv_def)
  have "basis_inv s3"
    using alt i2 assms(2) by (auto dest: sip_exec_Some(3) intro: basis_inv_purchase)
  then show ?thesis by (simp add: s')
qed

lemma basis_inv_bid:
  assumes "basis_inv s" and "0 < p" and "bid s dt p = Some (s', a)"
  shows "basis_inv s'"
  using bid_cases[OF assms(3)] assms(1,2)
  by (auto dest: bid_exec_Some(3) intro: basis_inv_purchase)

lemma basis_inv_sell:
  assumes "basis_inv s" and "sell s dt p = Some (s', a)"
  shows "basis_inv s'"
  using sell_cases[OF assms(2)] assms(1)
  by (auto simp: basis_inv_def sell_exec_fields)

lemma basis_inv_process_row:
  assumes "basis_inv s" and "0 < close r" and "process_row s i pm r = Some (s', l)"
  shows "basis_inv s'"
proof -
  from process_row_cases[OF assms(3)] obtain s1 where
    l: "lumpsum s i (date r) (close r) = Some s1" and
    alt: "sip s1 (date r) (close r) = Some (s', action_taken l) \<or>
          bid s1 (date r) (close r) = Some (s', action_taken l) \<or>
          (\<exists>s3. sell s1 (date r) (close r) = Some (s3, action_taken l)
                 \<and> s' = record_history s3 (date r) (close r))"
    by blast
  have i1: "basis_inv s1" using basis_inv_lumpsum[OF assms(1,2) l] .
  from alt show ?thesis
    using basis_inv_sip[OF i1 assms(2)] basis_inv_bid[OF i1 assms(2)] basis_inv_sell[OF i1]
    by auto
qed

lemma pap_pos:
  assumes "run_inv s" and "basis_inv s" and "0 < total_units s"
  shows "0 < pap s"
  using assms by (simp add: run_inv_def units_inv_def basis_inv_def)

lemma process_row_pos:
  assumes "run_inv s" and "basis_inv s" and "0 < close r"
  shows "\<exists>s' l. process_row s i pm r = Some (s', l) \<and> run_inv s' \<and> basis_inv s'"
proof -
  have "\<exists>res. process_row s i pm r = Some res"
  proof (rule process_row_total)
    show "close r \<noteq> 0" using assms(3) by simp
    show "0 \<le> total_units s" using assms(1) by (simp add: run_inv_def units_inv_def)
    fix s1 assume l: "lumpsum s i (date r) (close r) = Some s1"
    have "run_inv s1" "basis_inv s1"
      using run_inv_lumpsum[OF assms(1) l] basis_inv_lumpsum[OF assms(2,3) l] by simp_all
    then show "0 \<le> total_units s1 \<and> (0 < total_units s1 \<longrightarrow> pap s1 \<noteq> 0)"
      using pap_pos[of s1] by (auto simp: run_inv_def units_inv_def)
  qed
  then obtain s' l where h: "process_row s i pm r = Some (s', l)" by auto
  then show ?thesis
    using run_inv_process_row[OF assms(1) h] basis_inv_process_row[OF assms(2,3) h] by simp
qed

lemma run_loop_pos:
  assumes "run_inv s" and "basis_inv s" and "\<forall>r\<in>set data. 0 < close r"
  shows "\<exists>s' ls. run_loop s i pm data = Some (s', ls) \<and> run_inv s' \<and> basis_inv s'"
  using run_loop_total[of "\<lambda>s. run_inv s \<and> basis_inv s" s data i pm] assms process_row_pos
  by blast

lemma run_pos:
  assumes "\<forall>r\<in>set data. 0 < close r"
  shows "\<exists>s. run (PKPStrategy_init tk sa mp bm bd l) data = Some s \<and> run_inv s \<and> basis_inv s"
proof -
  let ?s0 = "PKPStrategy_init tk sa mp bm bd l"
  have "run_inv ?s0" "basis_inv ?s0" by (rule run_inv_init, rule basis_inv_init)
  from run_loop_pos[OF this assms, of 0 None] show ?thesis
    by (auto simp: run_def run_logs_def)
qed


subsection \<open>What one day appends to the history and to the transaction log\<close>

lemma lumpsum_history:
  "lumpsum s i dt p = Some s' \<Longrightarrow> portfolio_history s' = portfolio_history s"
  by (auto dest!: lumpsum_cases dest: lumpsum_exec_Some(8))

lemma process_row_history:
  assumes "process_row s i pm r = Some (s', l)"
  shows "\<exists>h. portfolio_history s' = portfolio_history s @ [h]
     \<and> h_date h = date r \<and> h_price h = close r
     \<and> h_units h = total_units s' \<and> h_pap h = pap s'
     \<and> h_profit_reserve h = profit_reserve s' \<and> h_actual_invested h = actual_invested s'"
proof -
  from process_row_cases[OF assms] obtain s1 where
    l: "lumpsum s i (date r) (close r) = Some s1" and
    alt: "sip s1 (date r) (close r) = Some (s', action_taken l) \<or>
          (action_taken l \<noteq> None \<and> bid s1 (date r) (close r) = Some (s', action_taken l)) \<or>
          (\<exists>s3. sell s1 (date r) (close r) = Some (s3, action_taken l)
                 \<and> s' = record_history s3 (date r) (close r))"
    by blast
  note h1 = lumpsum_history[OF l]
  from alt consider
      (sip) "sip s1 (date r) (close r) = Some (s', action_taken l)"
    | (bid) "action_taken l \<noteq> None" "bid s1 (date r) (close r) = Some (s', action_taken l)"
    | (sell) s3 where "sell s1 (date r) (close r) = Some (s3, action_taken l)"
        "s' = record_history s3 (date r) (close r)"
    by blast
  then show ?thesis
  proof cases
    case sip
    from sip_cases[OF sip] obtain s2 s3 where
      b: "benchmark_sip s1 (close r) = Some s2" and
      s': "s' = record_history s3 (date r) (close r)" and
      a: "s3 = s2 \<or> (\<exists>u. sip_exec s2 (date r) (close r) u = Some s3)"
      by auto
    have "portfolio_history s3 = portfolio_history s2"
      using a by (auto dest: sip_exec_Some(8))
    then have "portfolio_history s3 = portfolio_history s"
      using benchmark_sip_Some(9)[OF b] h1 by simp
    then show ?thesis
      using record_history_history[of s3 "date r" "close r"] unfolding s' by auto
  next
    case bid
    from bid_cases[OF bid(2)] bid(1) obtain u dp k where
      "bid_exec s1 (date r) (close r) dp k u = Some s'" by auto
    from bid_exec_history[OF this] show ?thesis using h1 by auto
  next
    case sell
    have "portfolio_history s3 = portfolio_history s1"
      using sell_cases[OF sell(1)] by (auto simp: sell_exec_fields)
    then show ?thesis
      using record_history_history[of s3 "date r" "close r"] h1 unfolding sell(2) by auto
  qed
qed

lemma run_loop_history:
  "run_loop s i pm data = Some (s', ls) \<Longrightarrow>
     \<exists>hs. portfolio_history s' = portfolio_history s @ hs \<and> length hs = length data"
proof (induction data arbitrary: s i pm ls)
  case Nil
  then show ?case by simp
next
  case (Cons r rs)
  from Cons.prems obtain s1 l ls' where
    step: "process_row s i pm r = Some (s1, l)" and
    rest: "run_loop s1 (Suc i) (Some (month (date r))) rs = Some (s', ls')"
    by (auto split: bind_splits prod.splits)
  from process_row_history[OF step] obtain h where
    "portfolio_history s1 = portfolio_history s @ [h]" by blast
  moreover from Cons.IH[OF rest] obtain hs where
    "portfolio_history s' = portfolio_history s1 @ hs" "length hs = length rs" by blast
  ultimately show ?case by simp
qed

lemma lumpsum_transactions:
  assumes "lumpsum s i dt p = Some s'"
  shows "\<exists>lump. transactions s' = transactions s @ lump
     \<and> list_all (\<lambda>t. t_type t = LUMPSUM) lump"
proof -
  from lumpsum_cases[OF assms] consider "s' = s"
    | u where "lumpsum_exec s dt p u = Some s'" by auto
  then show ?thesis
  proof cases
    case 1
    then show ?thesis by simp
  next
    case 2
    from lumpsum_exec_transactions[OF 2] obtain tx where
      "transactions s' = transactions s @ [tx]" "t_type tx = LUMPSUM" by blast
    then show ?thesis by simp
  qed
qed

lemma process_row_transactions:
  assumes "process_row s i pm r = Some (s', l)"
  shows "\<exists>lump act. transactions s' = transactions s @ lump @ act
     \<and> list_all (\<lambda>t. t_type t = LUMPSUM) lump
     \<and> map t_type act = (case action_taken l of None \<Rightarrow> [] | Some ty \<Rightarrow> [ty])
     \<and> action_taken l \<noteq> Some LUMPSUM"
proof -
  from process_row_cases[OF assms] obtain s1 where
    l: "lumpsum s i (date r) (close r) = Some s1" and
    alt: "sip s1 (date r) (close r) = Some (s', action_taken l) \<or>
          (action_taken l \<noteq> None \<and> bid s1 (date r) (close r) = Some (s', action_taken l)) \<or>
          (\<exists>s3. sell s1 (date r) (close r) = Some (s3, action_taken l)
                 \<and> s' = record_history s3 (date r) (close r))"
    by blast
  from lumpsum_transactions[OF l] obtain lump where
    lump: "transactions s1 = transactions s @ lump" "list_all (\<lambda>t. t_type t = LUMPSUM) lump"
    by blast
  have "\<exists>act. transactions s' = transactions s1 @ act
     \<and> map t_type act = (case action_taken l of None \<Rightarrow> [] | Some ty \<Rightarrow> [ty])
     \<and> action_taken l \<noteq> Some LUMPSUM"
  proof -
    from alt consider
        (sip) "sip s1 (date r) (close r) = Some (s', action_taken l)"
      | (bid) "action_taken l \<noteq> None" "bid s1 (date r) (close r) = Some (s', action_taken l)"
      | (sell) s3 where "sell s1 (date r) (close r) = Some (s3, action_taken l)"
          "s' = record_history s3 (date r) (close r)"
      by blast
    then show ?thesis
    proof cases
      case sip
      from sip_cases[OF sip] obtain s2 s3 where
        b: "benchmark_sip s1 (close r) = Some s2" and
        s': "s' = record_history s3 (date r) (close r)" and
        a: "(action_taken l = None \<and> s3 = s2) \<or>
            (action_taken l = Some SIP \<and> (\<exists>u. sip_exec s2 (date r) (close r) u = Some s3))"
        by auto
      from a show ?thesis
      proof
        assume "action_taken l = None \<and> s3 = s2"
        then show ?thesis using benchmark_sip_Some(8)[OF b] s' by simp
      next
        assume x: "action_taken l = Some SIP \<and> (\<exists>u. sip_exec s2 (date r) (close r) u = Some s3)"
        then obtain u where "sip_exec s2 (date r) (close r) u = Some s3" by blast
        from sip_exec_transactions[OF this] obtain tx where
          "transactions s3 = transactions s2 @ [tx]" "t_type tx = SIP" by blast
        then show ?thesis using x benchmark_sip_Some(8)[OF b] s' by simp
      qed
    next
      case bid
      from bid_cases[OF bid(2)] bid(1) obtain u dp k where
        k: "action_taken l = Some (BID k)" and
        "bid_exec s1 (date r) (close r) dp k u = Some s'" by auto
      from bid_exec_transactions[OF this(2)] obtain tx where
        "transactions s' = transactions s1 @ [tx]" "t_type tx = BID k" by blast
      then show ?thesis using k by simp
    next
      case sell
      from sell_cases[OF sell(1)] show ?thesis
      proof
        assume "action_taken l = None \<and> s3 = s1"
        then show ?thesis using sell(2) by simp
      next
        assume x: "action_taken l = Some SELL \<and> 0 < total_units s1 \<and> close r \<noteq> 0
          \<and> target_threshold s1 (close r) \<le> of_int (total_units s1) * close r - bia s1
          \<and> (\<exists>u. u = min (total_units s1)
                     \<lfloor>(target_threshold s1 (close r) + close r - 1) / close r\<rfloor> \<and> 0 < u
                \<and> s3 = sell_exec s1 (date r) (close r)
                         (of_int (total_units s1) * close r - bia s1) u)"
        then obtain u pv where s3: "s3 = sell_exec s1 (date r) (close r) pv u" by blast
        from sell_exec_transactions[of s1 "date r" "close r" pv u] obtain tx where
          "transactions s3 = transactions s1 @ [tx]" "t_type tx = SELL"
          unfolding s3 by blast
        then show ?thesis using x sell(2) by simp
      qed
    qed
  qed
  then show ?thesis using lump by auto
qed

lemma process_row_stage:
  assumes "process_row s i pm r = Some (s', l)"
  shows "case action_taken l of
           Some (BID k) \<Rightarrow> current_bid_stage s < 10 \<and> k = current_bid_stage s + 1
                            \<and> current_bid_stage s' = current_bid_stage s + 1
         | Some SELL \<Rightarrow> current_bid_stage s' = 0
         | _ \<Rightarrow> current_bid_stage s' = current_bid_stage s"
proof -
  from process_row_cases[OF assms] obtain s1 where
    l: "lumpsum s i (date r) (close r) = Some s1" and
    alt: "sip s1 (date r) (close r) = Some (s', action_taken l) \<or>
          (action_taken l \<noteq> None \<and> bid s1 (date r) (close r) = Some (s', action_taken l)) \<or>
          (\<exists>s3. sell s1 (date r) (close r) = Some (s3, action_taken l)
                 \<and> s' = record_history s3 (date r) (close r))"
    by blast
  have st1: "current_bid_stage s1 = current_bid_stage s"
    using lumpsum_cases[OF l] by (auto dest: lumpsum_exec_Some(7))
  from alt consider
      (sip) "sip s1 (date r) (close r) = Some (s', action_taken l)"
    | (bid) "action_taken l \<noteq> None" "bid s1 (date r) (close r) = Some (s', action_taken l)"
    | (sell) s3 where "sell s1 (date r) (close r) = Some (s3, action_taken l)"
        "s' = record_history s3 (date r) (close r)"
    by blast
  then show ?thesis
  proof cases
    case sip
    from sip_cases[OF sip] obtain s2 s3 where
      b: "benchmark_sip s1 (close r) = Some s2" and
      s': "s' = record_history s3 (date r) (close r)" and
      a: "(action_taken l = None \<and> s3 = s2) \<or>
          (action_taken l = Some SIP \<and> (\<exists>u. sip_exec s2 (date r) (close r) u = Some s3))"
      by auto
    have "current_bid_stage s3 = current_bid_stage s2"
      using a by (auto dest: sip_exec_Some(7))
    then have "current_bid_stage s' = current_bid_stage s"
      using benchmark_sip_Some(7)[OF b] st1 s' by simp
    then show ?thesis using a by auto
  next
    case bid
    from bid_cases[OF bid(2)] bid(1) obtain u dp where
      k: "action_taken l = Some (BID (current_bid_stage s1 + 1))" "current_bid_stage s1 < 10" and
      "bid_exec s1 (date r) (close r) dp (current_bid_stage s1 + 1) u = Some s'" by auto
    from bid_exec_Some(7)[OF this(3)] show ?thesis using k st1 by simp
  next
    case sell
    from sell_cases[OF sell(1)] show ?thesis
      using sell(2) st1 by (auto simp: sell_exec_fields)
  qed
qed


subsection \<open>The funding of each purchase\<close>

lemma reserve_first_max:
  fixes c r :: real
  shows "r - min c r = max 0 (r - c)" and "c - min c r = max 0 (c - r)"
  by (auto simp: min_def max_def)

lemma sip_funded:
  assumes "sip self dt p = Some (s', Some SIP)"
  shows "funded_reserve_first self s'"
proof -
  from sip_cases[OF assms] obtain s2 s3 u where
    b: "benchmark_sip self p = Some s2" and s': "s' = record_history s3 dt p" and
    ex: "sip_exec s2 dt p u = Some s3"
    by auto
  note bs = benchmark_sip_Some[OF b] and e = sip_exec_Some[OF ex]
  from sip_exec_transactions[OF ex] obtain tx where
    tx: "transactions s3 = transactions s2 @ [tx]" "t_amount tx = of_int u * p" by blast
  show ?thesis
    using tx bs(5,6,8) e(5,6) unfolding s'
    by (simp add: funded_reserve_first_def reserve_first_max Let_def)
qed

lemma bid_funded:
  assumes "bid self dt p = Some (s', Some (BID k))"
  shows "funded_reserve_first self s'"
proof -
  from bid_cases[OF assms] obtain u dp k' where
    ex: "bid_exec self dt p dp k' u = Some s'"
    by auto
  note e = bid_exec_Some[OF ex]
  from bid_exec_transactions[OF ex] obtain tx where
    tx: "transactions s' = transactions self @ [tx]" "t_amount tx = of_int u * p" by blast
  show ?thesis
    using tx e(5,6)
    by (simp add: funded_reserve_first_def reserve_first_max Let_def)
qed

lemma lumpsum_funded:
  assumes "lumpsum (PKPStrategy_init tk sa mp bm bd l) i dt p = Some s'"
    and "transactions s' \<noteq> []"
  shows "funded_reserve_first (PKPStrategy_init tk sa mp bm bd l) s'"
proof -
  let ?s = "PKPStrategy_init tk sa mp bm bd l"
  have init: "transactions ?s = []" "profit_reserve ?s = 0" "initial_lumpsum ?s = l"
    by (simp_all add: PKPStrategy_init_def)
  from lumpsum_cases[OF assms(1)] assms(2) init(1) obtain u where
    u: "0 < initial_lumpsum ?s" "u = py_int (initial_lumpsum ?s / p)" "0 < u" and
    ex: "lumpsum_exec ?s dt p u = Some s'"
    by auto
  have pp: "0 < p" using lumpsum_price_pos u by blast
  then have c: "0 \<le> of_int u * p" using u(3) by simp
  note e = lumpsum_exec_Some[OF ex]
  from lumpsum_exec_transactions[OF ex] obtain tx where
    tx: "transactions s' = transactions ?s @ [tx]" "t_amount tx = of_int u * p" by blast
  show ?thesis
    using tx e(5,6) init(1,2) c
    by (simp add: funded_reserve_first_def Let_def max_def)
qed

subsection \<open>The first record of a run with a lumpsum\<close>

lemma lumpsum_fires:
  assumes "0 < initial_lumpsum s" and "0 < py_int (initial_lumpsum s / p)"
  shows "lumpsum s 0 dt p = lumpsum_exec s dt p (py_int (initial_lumpsum s / p))"
proof -
  have "p \<noteq> 0" using lumpsum_price_pos[OF assms] by simp
  then show ?thesis using assms by (simp add: lumpsum_def py_truediv_def)
qed

lemma first_row_benchmark:
  assumes "process_row s 0 None r = Some (s', l)"
  shows "\<exists>s1 act. lumpsum s 0 (date r) (close r) = Some s1
     \<and> benchmark_units s' = benchmark_units s1
     \<and> benchmark_invested s' = benchmark_invested s1
     \<and> transactions s' = transactions s1 @ act"
proof -
  from process_row_cases[OF assms] obtain s1 where
    l: "lumpsum s 0 (date r) (close r) = Some s1" and
    alt: "(action_taken l \<noteq> None \<and> bid s1 (date r) (close r) = Some (s', action_taken l)) \<or>
          (\<exists>s3. sell s1 (date r) (close r) = Some (s3, action_taken l)
                 \<and> s' = record_history s3 (date r) (close r))"
    by auto
  from alt have "benchmark_units s' = benchmark_units s1
     \<and> benchmark_invested s' = benchmark_invested s1
     \<and> (\<exists>act. transactions s' = transactions s1 @ act)"
  proof
    assume a: "action_taken l \<noteq> None \<and> bid s1 (date r) (close r) = Some (s', action_taken l)"
    then obtain u dp k where ex: "bid_exec s1 (date r) (close r) dp k u = Some s'"
      using bid_cases[of s1 "date r" "close r" s' "action_taken l"] by auto
    from bid_exec_transactions[OF ex] bid_exec_Some(8,9)[OF ex] show ?thesis by auto
  next
    assume "\<exists>s3. sell s1 (date r) (close r) = Some (s3, action_taken l)
                 \<and> s' = record_history s3 (date r) (close r)"
    then obtain s3 where s3: "sell s1 (date r) (close r) = Some (s3, action_taken l)"
      "s' = record_history s3 (date r) (close r)" by blast
    from sell_cases[OF s3(1)] show ?thesis
    proof
      assume "action_taken l = None \<and> s3 = s1"
      then show ?thesis using s3(2) by simp
    next
      assume "action_taken l = Some SELL \<and> 0 < total_units s1 \<and> close r \<noteq> 0
          \<and> target_threshold s1 (close r) \<le> of_int (total_units s1) * close r - bia s1
          \<and> (\<exists>u. u = min (total_units s1)
                     \<lfloor>(target_threshold s1 (close r) + close r - 1) / close r\<rfloor> \<and> 0 < u
                \<and> s3 = sell_exec s1 (date r) (close r)
                         (of_int (total_units s1) * close r - bia s1) u)"
      then obtain u pv where x: "s3 = sell_exec s1 (date r) (close r) pv u" by blast
      from sell_exec_transactions[of s1 "date r" "close r" pv u] show ?thesis
        unfolding s3(2) x by (auto simp: sell_exec_fields)
    qed
  qed
  then show ?thesis using l by blast
qed

subsection \<open>The sustained breakeven date when the tolerance is never exceeded\<close>

lemma last_positive_date_None:
  assumes "list_all (\<lambda>h. \<not> 1 < h_actual_invested h) hist"
  shows "last_positive_date hist = None"
proof -
  have "foldl (\<lambda>lpd record. if h_actual_invested record > 1.0 then Some (h_date record) else lpd)
          acc hist = acc" for acc
    using assms by (induction hist arbitrary: acc) auto
  then show ?thesis by (simp add: last_positive_date_def)
qed

lemma generate_report_never_above_tolerance:
  assumes "list_all (\<lambda>h. \<not> 1 < h_actual_invested h) (portfolio_history s)"
  shows "sustained_breakeven_date (generate_report s) = sustained_breakeven_date s"
  using last_positive_date_None[OF assms] by (simp add: generate_report_def Let_def)

lemma get_metrics_never_above_tolerance:
  assumes "list_all (\<lambda>h. \<not> 1 < h_actual_invested h) (portfolio_history s)"
    and "portfolio_history s \<noteq> []"
  shows "\<exists>m. get_metrics s = Some m \<and>
           m_break_even_date m =
             (if h_actual_invested (hd (portfolio_history s)) \<le> 0
              then Reached (h_date (hd (portfolio_history s))) else Not_Reached)"
  using last_positive_date_None[OF assms(1)] assms(2)
  by (simp add: get_metrics_def Let_def)


subsection \<open>The benchmark over a whole run\<close>

lemma process_row_benchmark:
  assumes "process_row s i pm r = Some (s', l)"
  shows "\<exists>s1. lumpsum s i (date r) (close r) = Some s1
     \<and> base_sip s' = base_sip s1
     \<and> benchmark_units s' = benchmark_units s1 +
          (if (case pm of None \<Rightarrow> False | Some m \<Rightarrow> month (date r) \<noteq> m)
              \<and> 0 < py_int (base_sip s1 / close r)
           then py_int (base_sip s1 / close r) else 0)
     \<and> benchmark_invested s' = benchmark_invested s1 +
          (if (case pm of None \<Rightarrow> False | Some m \<Rightarrow> month (date r) \<noteq> m)
              \<and> 0 < py_int (base_sip s1 / close r)
           then of_int (py_int (base_sip s1 / close r)) * close r else 0)"
proof -
  let ?sd = "case pm of None \<Rightarrow> False | Some m \<Rightarrow> month (date r) \<noteq> m"
  from process_row_cases[OF assms] obtain s1 where
    l: "lumpsum s i (date r) (close r) = Some s1" and
    sd: "is_sip_day l = ?sd" and
    alt: "(is_sip_day l \<and> sip s1 (date r) (close r) = Some (s', action_taken l)) \<or>
          (\<not> is_sip_day l \<and> action_taken l \<noteq> None
             \<and> bid s1 (date r) (close r) = Some (s', action_taken l)) \<or>
          (\<not> is_sip_day l
             \<and> (\<exists>s3. sell s1 (date r) (close r) = Some (s3, action_taken l)
                   \<and> s' = record_history s3 (date r) (close r)))"
    by blast
  from alt consider
      (sip) "?sd" "sip s1 (date r) (close r) = Some (s', action_taken l)"
    | (bid) "\<not> ?sd" "action_taken l \<noteq> None"
        "bid s1 (date r) (close r) = Some (s', action_taken l)"
    | (sell) s3 where "\<not> ?sd" "sell s1 (date r) (close r) = Some (s3, action_taken l)"
        "s' = record_history s3 (date r) (close r)"
    using sd by blast
  then have "base_sip s' = base_sip s1
     \<and> benchmark_units s' = benchmark_units s1 +
          (if ?sd \<and> 0 < py_int (base_sip s1 / close r)
           then py_int (base_sip s1 / close r) else 0)
     \<and> benchmark_invested s' = benchmark_invested s1 +
          (if ?sd \<and> 0 < py_int (base_sip s1 / close r)
           then of_int (py_int (base_sip s1 / close r)) * close r else 0)"
  proof cases
    case sip
    from sip_cases[OF sip(2)] obtain s2 s3 where
      b: "benchmark_sip s1 (close r) = Some s2" and
      s': "s' = record_history s3 (date r) (close r)" and
      a: "s3 = s2 \<or> (\<exists>u. sip_exec s2 (date r) (close r) u = Some s3)"
      by auto
    have "benchmark_units s3 = benchmark_units s2 \<and> benchmark_invested s3 = benchmark_invested s2
        \<and> base_sip s3 = base_sip s2"
      using a by (auto dest: sip_exec_Some(9,10,12))
    then show ?thesis
      using benchmark_sip_Some(12,13,14)[OF b] sip(1) s' by simp
  next
    case bid
    from bid_cases[OF bid(3)] bid(2) obtain u dp k where
      "bid_exec s1 (date r) (close r) dp k u = Some s'" by auto
    from bid_exec_Some(8,9,11)[OF this] show ?thesis using bid(1) by simp
  next
    case sell
    from sell_cases[OF sell(2)] show ?thesis
      using sell(1,3) by (auto simp: sell_exec_fields)
  qed
  then show ?thesis using l by blast
qed

lemma lumpsum_later:
  "0 < i \<Longrightarrow> lumpsum s i dt p = Some s"
  by (simp add: lumpsum_def)

lemma run_loop_benchmark:
  assumes "run_loop s i pm data = Some (s', ls)" and "0 < i"
  shows "base_sip s' = base_sip s
     \<and> benchmark_units s' = benchmark_units s + contribution_units (base_sip s) pm data
     \<and> benchmark_invested s' = benchmark_invested s + contribution_cost (base_sip s) pm data"
  using assms
proof (induction data arbitrary: s i pm ls)
  case Nil
  then show ?case by simp
next
  case (Cons r rs)
  from Cons.prems(1) obtain s1 l ls' where
    step: "process_row s i pm r = Some (s1, l)" and
    rest: "run_loop s1 (Suc i) (Some (month (date r))) rs = Some (s', ls')"
    by (auto split: bind_splits prod.splits)
  from process_row_benchmark[OF step] lumpsum_later[OF Cons.prems(2)]
  have one: "base_sip s1 = base_sip s"
    "benchmark_units s1 = benchmark_units s +
          (if (case pm of None \<Rightarrow> False | Some m \<Rightarrow> month (date r) \<noteq> m)
              \<and> 0 < py_int (base_sip s / close r)
           then py_int (base_sip s / close r) else 0)"
    "benchmark_invested s1 = benchmark_invested s +
          (if (case pm of None \<Rightarrow> False | Some m \<Rightarrow> month (date r) \<noteq> m)
              \<and> 0 < py_int (base_sip s / close r)
           then of_int (py_int (base_sip s / close r)) * close r else 0)"
    by auto
  from Cons.IH[OF rest] have more: "base_sip s' = base_sip s1"
    "benchmark_units s' = benchmark_units s1
        + contribution_units (base_sip s1) (Some (month (date r))) rs"
    "benchmark_invested s' = benchmark_invested s1
        + contribution_cost (base_sip s1) (Some (month (date r))) rs"
    by simp_all
  show ?case
    unfolding more one contribution_units.simps contribution_cost.simps by simp
qed


subsection \<open>The rounding of the profit harvest\<close>

text \<open>What the sell rule sells: the floor of \<open>(target + price - 1) / price\<close>, capped.\<close>

lemma sell_units:
  assumes "sell s dt p = Some (s', Some SELL)"
  shows "total_units s - total_units s' =
           min (total_units s) \<lfloor>(target_threshold s p + p - 1) / p\<rfloor>"
  using sell_cases[OF assms] by (auto simp: sell_exec_fields)

text \<open>
  On integers the expression is the ceiling of the quotient; it is on amounts with a
  fractional part that it falls short of it.
\<close>

lemma ceil_div_int:
  fixes t p :: int
  assumes "0 < p"
  shows "(t + p - 1) div p = - ((- t) div p)"
proof -
  define q where "q = t div p"
  define m where "m = t mod p"
  have t: "t = p * q + m" and m: "0 \<le> m" "m < p"
    using assms by (simp_all add: q_def m_def)
  show ?thesis
  proof (cases "m = 0")
    case True
    have "(t + p - 1) div p = q"
      by (rule int_div_pos_eq[of _ _ _ "p - 1"]) (use t True assms in auto)
    moreover have "(- t) div p = - q"
      by (rule int_div_pos_eq[of _ _ _ 0]) (use t True assms in auto)
    ultimately show ?thesis by simp
  next
    case False
    have "(t + p - 1) div p = q + 1"
      by (rule int_div_pos_eq[of _ _ _ "m - 1"])
         (use t False m assms in \<open>auto simp: algebra_simps\<close>)
    moreover have "(- t) div p = - (q + 1)"
      by (rule int_div_pos_eq[of _ _ _ "p - m"])
         (use t False m assms in \<open>auto simp: algebra_simps\<close>)
    ultimately show ?thesis by simp
  qed
qed

lemma floor_eq_ceiling_integral:
  fixes t p :: int
  assumes "0 < p"
  shows "\<lfloor>(of_int t + of_int p - 1) / (of_int p :: real)\<rfloor> = \<lceil>of_int t / (of_int p :: real)\<rceil>"
proof -
  have "\<lfloor>(of_int t + of_int p - 1) / (of_int p :: real)\<rfloor> =
        \<lfloor>of_int (t + p - 1) / (of_int p :: real)\<rfloor>"
    by simp
  also have "\<dots> = (t + p - 1) div p"
    by (rule floor_divide_of_int_eq)
  finally have L: "\<lfloor>(of_int t + of_int p - 1) / (of_int p :: real)\<rfloor> = (t + p - 1) div p" .
  have "\<lceil>of_int t / (of_int p :: real)\<rceil> = - \<lfloor>of_int (- t) / (of_int p :: real)\<rfloor>"
    by (simp add: ceiling_def)
  also have "\<dots> = - ((- t) div p)"
    by (simp only: floor_divide_of_int_eq)
  finally show ?thesis using L ceil_div_int[OF assms] by simp
qed

lemma sell_units_integral:
  fixes t p :: int
  assumes "sell s dt (of_int p) = Some (s', Some SELL)"
    and "target_threshold s (of_int p) = of_int t" and "0 < p"
  shows "total_units s - total_units s' =
           min (total_units s) \<lceil>target_threshold s (of_int p) / of_int p\<rceil>"
  using sell_units[OF assms(1)] floor_eq_ceiling_integral[OF assms(3), of t] assms(2)
  by simp


subsection \<open>Contribution days by month number\<close>

text \<open>
  What the loop computes: the record at index \<open>i\<close> is flagged exactly when it is not the
  first and its month number (1 to 12) differs from the month number of the record before
  it. The years of the two dates play no part.
\<close>

lemma sip_day_month_number:
  assumes "run_logs self data = Some (s, logs)" and "i < length data"
  shows "is_sip_day (logs ! i) \<longleftrightarrow>
           0 < i \<and> month (date (data ! i)) \<noteq> month (date (data ! (i - 1)))"
proof -
  from run_logs_step[OF assms] obtain si si' where
    "process_row si i (if i = 0 then None else Some (month (date (data ! (i - 1)))))
       (data ! i) = Some (si', logs ! i)"
    by blast
  from process_row_cases[OF this] show ?thesis
    by (cases "i = 0") auto
qed

subsection \<open>The rounding of doubles\<close>









lemma round_double_0 [simp]: "round_double 0 = 0"
  by (simp add: round_double_def)


subsection \<open>The capital recovery of a sale, exact and in doubles\<close>




text \<open>The run of the exact model that leads to that sale.\<close>

lemma recovery_run:
  "\<exists>s. run recovery_strategy recovery_data = Some s
     \<and> map t_type (transactions s) = [LUMPSUM, SELL]
     \<and> map t_units (transactions s) = [304, - 256]"
  by (simp add: run_def run_logs_def process_row_def lumpsum_def lumpsum_exec_def sip_def
      sip_exec_def benchmark_sip_def bid_def bid_exec_def sell_def sell_exec_def
      target_threshold_def buy_reserve_first_def log_transaction_def record_history_def
      py_truediv_def py_floordiv_def py_int_def PKPStrategy_init_def Let_def
      recovery_strategy_def recovery_data_def day1_def day2_def)

lemmas run_defs = run_def run_logs_def process_row_def lumpsum_def lumpsum_exec_def sip_def sip_exec_def
  benchmark_sip_def bid_def bid_exec_def sell_def sell_exec_def target_threshold_def buy_reserve_first_def
  log_transaction_def record_history_def py_truediv_def py_floordiv_def py_int_def PKPStrategy_init_def Let_def

lemmas example_defs = example_strategy_def example_data_def holding_strategy_def reserve_strategy_def
  rounding_strategy_def rounding_data_def idle_strategy_def idle_data_def day1_def day2_def day3_def
  gap_data_def gap_day1_def gap_day2_def recovery_strategy_def recovery_data_def

section \<open>Theorems\<close>

text \<open>
  C3, at the input where the code departs from it. With the defaults and the records of
  2020-01-15 and 2021-01-04, a previous record exists and the second record is in another
  calendar month (January 2021 after January 2020): it is the first record of a new month.
  The code compares the month numbers only (1 and 1): it classifies no contribution day,
  logs no transaction, and the benchmark buys nothing.
\<close>

theorem contribution_day_missed_across_years:
  "\<exists>s logs. run_logs idle_strategy gap_data = Some (s, logs)
     \<and> (year (date (gap_data ! 1)), month (date (gap_data ! 1))) \<noteq>
        (year (date (gap_data ! 0)), month (date (gap_data ! 0)))
     \<and> \<not> is_sip_day (logs ! 1)
     \<and> transactions s = [] \<and> benchmark_units s = 0"
  by (simp add: run_defs example_defs)




text \<open>
  C6. In a run from a fresh object, the history record appended for the record at index
  \<open>i\<close> holds the units and the \<open>pap\<close> of the object at that moment (the object after the
  first \<open>i + 1\<close> records): its \<open>pap\<close> is the cost basis \<open>bia\<close> of that moment divided by its
  units when it holds units, and 0 when it holds none.
\<close>

theorem pap_invariant:
  assumes "run (PKPStrategy_init tk sa mp bm bd lump) data = Some s" and "i < length data"
  shows "\<exists>si. run (PKPStrategy_init tk sa mp bm bd lump) (take (Suc i) data) = Some si
     \<and> i < length (portfolio_history s)
     \<and> (let h = portfolio_history s ! i
        in h_units h = total_units si \<and> 0 \<le> h_units h
           \<and> h_pap h = (if 0 < h_units h then bia si / of_int (h_units h) else 0))"
proof -
  let ?s0 = "PKPStrategy_init tk sa mp bm bd lump"
  from assms(1) obtain logs where rl: "run_logs ?s0 data = Some (s, logs)"
    by (auto simp: run_def)
  from run_logs_step[OF rl assms(2)] obtain si si' where
    a: "run_logs ?s0 (take i data) = Some (si, take i logs)" and
    b: "process_row si i (if i = 0 then None else Some (month (date (data ! (i - 1)))))
          (data ! i) = Some (si', logs ! i)" and
    c: "run_logs ?s0 (take (Suc i) data) = Some (si', take (Suc i) logs)" and
    d: "run_loop si' (Suc i) (Some (month (date (data ! i)))) (drop (Suc i) data) =
          Some (s, drop (Suc i) logs)"
    by blast
  have "portfolio_history ?s0 = []" by (simp add: PKPStrategy_init_def)
  with run_loop_history[OF a[unfolded run_logs_def]] assms(2)
  have len: "length (portfolio_history si) = i" by auto
  from process_row_history[OF b] obtain h where
    h: "portfolio_history si' = portfolio_history si @ [h]"
       "h_units h = total_units si'" "h_pap h = pap si'"
    by blast
  from run_loop_history[OF d] obtain hs where
    "portfolio_history s = portfolio_history si' @ hs" by blast
  with h(1) len have nth: "portfolio_history s ! i = h" and li: "i < length (portfolio_history s)"
    by (simp_all add: nth_append)
  have "run_inv si'"
    using run_inv_run_loop[OF run_inv_init c[unfolded run_logs_def]] .
  then have "units_inv si'" by (simp add: run_inv_def)
  then show ?thesis
    using c nth li h(2,3) by (auto simp: run_def units_inv_def Let_def)
qed

theorem pap_invariant_witness:
  "\<exists>s si. run example_strategy example_data = Some s
     \<and> run example_strategy (take 2 example_data) = Some si
     \<and> 1 < length example_data
     \<and> h_units (portfolio_history s ! 1) = 1515
     \<and> bia si = 149955
     \<and> h_pap (portfolio_history s ! 1) = 149955 / 1515"
proof -
  have "\<exists>s. run example_strategy example_data = Some s"
    by (simp add: run_defs example_defs)
  then obtain s where h: "run example_strategy example_data = Some s" by blast
  have len: "1 < length example_data" by (simp add: example_data_def)
  have u: "h_units (portfolio_history s ! 1) = 1515"
    using h by (auto simp: run_defs example_defs)
  have "\<exists>si. run example_strategy (take 2 example_data) = Some si \<and> bia si = 149955"
    by (simp add: run_defs example_defs)
  then obtain si where si: "run example_strategy (take 2 example_data) = Some si"
    "bia si = 149955" by blast
  from pap_invariant[OF h[unfolded example_strategy_def] len]
  show ?thesis
    using h si u len by (auto simp: example_strategy_def Let_def numeral_2_eq_2)
qed

text \<open>
  C7. With strictly positive prices, a run from a fresh object over any prefix of the input
  completes, and in the object it reaches, in every history record and in the snapshot of
  every transaction, \<open>actual_invested\<close> and \<open>profit_reserve\<close> are not negative.
\<close>

theorem funds_never_negative:
  assumes "\<forall>r\<in>set data. 0 < close r"
  shows "\<exists>s. run (PKPStrategy_init tk sa mp bm bd lump) (take n data) = Some s
     \<and> 0 \<le> actual_invested s \<and> 0 \<le> profit_reserve s
     \<and> list_all (\<lambda>h. 0 \<le> h_actual_invested h \<and> 0 \<le> h_profit_reserve h)
          (portfolio_history s)
     \<and> list_all (\<lambda>t. 0 \<le> t_actual_invested t \<and> 0 \<le> t_profit_reserve t)
          (transactions s)"
proof -
  have "\<forall>r\<in>set (take n data). 0 < close r"
    using assms by (auto dest: in_set_takeD)
  from run_pos[OF this, of tk sa mp bm bd lump] show ?thesis
    by (auto simp: run_inv_def funds_inv_def funds_nonneg_def)
qed

theorem funds_never_negative_witness:
  "\<exists>s. run example_strategy (take 3 example_data) = Some s
     \<and> actual_invested s = 249955 \<and> profit_reserve s = 0
     \<and> 0 \<le> actual_invested s \<and> 0 \<le> profit_reserve s
     \<and> list_all (\<lambda>h. 0 \<le> h_actual_invested h \<and> 0 \<le> h_profit_reserve h)
          (portfolio_history s)
     \<and> list_all (\<lambda>t. 0 \<le> t_actual_invested t \<and> 0 \<le> t_profit_reserve t)
          (transactions s)"
proof -
  have h: "\<forall>r\<in>set example_data. 0 < close r"
    by (simp add: example_data_def)
  have "\<exists>s. run example_strategy (take 3 example_data) = Some s
          \<and> actual_invested s = 249955 \<and> profit_reserve s = 0"
    by (simp add: run_defs example_defs)
  then show ?thesis
    using funds_never_negative[OF h, of "''X''" 100000 10000 "0.5" "0.02" 100000 3]
    by (auto simp: example_strategy_def)
qed

text \<open>
  C8. In a run from a fresh object, on the day of the record at index \<open>i\<close>: the stage is in
  the range 0 to 10 before and after the day; the transactions of the day other than the
  lumpsum are exactly the action of the day; when the action is a dip-buy, the stage was
  below 10 and goes up by exactly 1; when it is a sell, the stage becomes 0; on every other
  day the stage does not change.
\<close>

theorem bid_stage_discipline:
  assumes "run_logs (PKPStrategy_init tk sa mp bm bd lump) data = Some (s, logs)"
    and "i < length data"
  shows "\<exists>si si'. run (PKPStrategy_init tk sa mp bm bd lump) (take i data) = Some si
     \<and> run (PKPStrategy_init tk sa mp bm bd lump) (take (Suc i) data) = Some si'
     \<and> 0 \<le> current_bid_stage si \<and> current_bid_stage si \<le> 10
     \<and> 0 \<le> current_bid_stage si' \<and> current_bid_stage si' \<le> 10
     \<and> filter (\<lambda>ty. ty \<noteq> LUMPSUM)
          (map t_type (drop (length (transactions si)) (transactions si'))) =
        (case action_taken (logs ! i) of None \<Rightarrow> [] | Some ty \<Rightarrow> [ty])
     \<and> (case action_taken (logs ! i) of
          Some (BID k) \<Rightarrow> current_bid_stage si < 10 \<and> k = current_bid_stage si + 1
                           \<and> current_bid_stage si' = current_bid_stage si + 1
        | Some SELL \<Rightarrow> current_bid_stage si' = 0
        | _ \<Rightarrow> current_bid_stage si' = current_bid_stage si)"
proof -
  let ?s0 = "PKPStrategy_init tk sa mp bm bd lump"
  from run_logs_step[OF assms] obtain si si' where
    a: "run_logs ?s0 (take i data) = Some (si, take i logs)" and
    b: "process_row si i (if i = 0 then None else Some (month (date (data ! (i - 1)))))
          (data ! i) = Some (si', logs ! i)" and
    c: "run_logs ?s0 (take (Suc i) data) = Some (si', take (Suc i) logs)"
    by blast
  have "run_inv si" "run_inv si'"
    using run_inv_run_loop[OF run_inv_init a[unfolded run_logs_def]]
      run_inv_run_loop[OF run_inv_init c[unfolded run_logs_def]] by simp_all
  then have st: "0 \<le> current_bid_stage si \<and> current_bid_stage si \<le> 10
     \<and> 0 \<le> current_bid_stage si' \<and> current_bid_stage si' \<le> 10"
    by (simp add: run_inv_def stage_inv_def)
  from process_row_transactions[OF b] obtain lmp act where
    t: "transactions si' = transactions si @ lmp @ act"
       "list_all (\<lambda>t. t_type t = LUMPSUM) lmp"
       "map t_type act = (case action_taken (logs ! i) of None \<Rightarrow> [] | Some ty \<Rightarrow> [ty])"
       "action_taken (logs ! i) \<noteq> Some LUMPSUM"
    by blast
  have "filter (\<lambda>ty. ty \<noteq> LUMPSUM) (map t_type lmp) = []"
    using t(2) by (induction lmp) auto
  then have f: "filter (\<lambda>ty. ty \<noteq> LUMPSUM)
          (map t_type (drop (length (transactions si)) (transactions si'))) =
        (case action_taken (logs ! i) of None \<Rightarrow> [] | Some ty \<Rightarrow> [ty])"
    using t(1,3,4) by (auto split: option.splits)
  show ?thesis
    using a c st f process_row_stage[OF b] by (auto simp: run_def)
qed

theorem bid_stage_discipline_witness:
  "\<exists>s logs si si'. run_logs example_strategy example_data = Some (s, logs)
     \<and> 1 < length example_data
     \<and> run example_strategy (take 1 example_data) = Some si
     \<and> run example_strategy (take 2 example_data) = Some si'
     \<and> action_taken (logs ! 1) = Some (BID 1)
     \<and> current_bid_stage si = 0 \<and> current_bid_stage si' = 1"
proof -
  have "\<exists>s logs. run_logs example_strategy example_data = Some (s, logs)
          \<and> action_taken (logs ! 1) = Some (BID 1)"
    by (simp add: run_defs example_defs)
  then obtain s logs where h: "run_logs example_strategy example_data = Some (s, logs)"
    and a: "action_taken (logs ! 1) = Some (BID 1)" by blast
  have len: "1 < length example_data" by (simp add: example_data_def)
  from bid_stage_discipline[OF h[unfolded example_strategy_def] len]
  show ?thesis
    using h a len by (auto simp: example_strategy_def numeral_2_eq_2)
qed

text \<open>
  C9. With strictly positive prices a run from a fresh object raises no
  \<^verbatim>\<open>ZeroDivisionError\<close>: it completes. In the object it reaches, \<open>pap\<close> is positive
  whenever units are held (so the division by \<open>pap\<close> of the dip-buy rule is defined), and in
  every transaction the percentages are 0 where their denominator is 0.
\<close>

theorem no_zero_division:
  assumes "\<forall>r\<in>set data. 0 < close r"
  shows "\<exists>s. run (PKPStrategy_init tk sa mp bm bd lump) data = Some s
     \<and> (0 < total_units s \<longrightarrow> 0 < pap s)
     \<and> list_all pct_guarded (transactions s)"
  using run_pos[OF assms, of tk sa mp bm bd lump] pap_pos
  by (auto simp: run_inv_def)

theorem no_zero_division_witness:
  "\<exists>s. run example_strategy example_data = Some s
     \<and> total_units s = 2015 \<and> 0 < pap s
     \<and> map t_bia (transactions s) = [100000, 149955, 249955]"
proof -
  have h: "\<forall>r\<in>set example_data. 0 < close r"
    by (simp add: example_data_def)
  have "\<exists>s. run example_strategy example_data = Some s \<and> total_units s = 2015
          \<and> map t_bia (transactions s) = [100000, 149955, 249955]"
    by (simp add: run_defs example_defs)
  then show ?thesis
    using no_zero_division[OF h, of "''X''" 100000 10000 "0.5" "0.02" 100000]
    by (auto simp: example_strategy_def)
qed

text \<open>
  C10. In a run from a fresh object with a positive lumpsum whose first price admits at
  least one unit: the first record completes, its first transaction is the lumpsum
  purchase, and after it the benchmark holds exactly the units of that purchase for exactly
  its cost. At the end of the run the benchmark holds these in addition to its regular
  purchases on the contribution days of the later records.
\<close>

theorem benchmark_lumpsum:
  assumes "0 < lump" and "0 < py_int (lump / close r)"
    and "run (PKPStrategy_init tk sa mp bm bd lump) (r # rs) = Some s"
  shows "\<exists>s1. run (PKPStrategy_init tk sa mp bm bd lump) [r] = Some s1
     \<and> transactions s1 \<noteq> []
     \<and> t_type (hd (transactions s1)) = LUMPSUM
     \<and> t_units (hd (transactions s1)) = py_int (lump / close r)
     \<and> t_amount (hd (transactions s1)) = of_int (py_int (lump / close r)) * close r
     \<and> benchmark_units s1 = t_units (hd (transactions s1))
     \<and> benchmark_invested s1 = t_amount (hd (transactions s1))
     \<and> benchmark_units s =
          benchmark_units s1 + contribution_units sa (Some (month (date r))) rs
     \<and> benchmark_invested s =
          benchmark_invested s1 + contribution_cost sa (Some (month (date r))) rs"
proof -
  let ?s0 = "PKPStrategy_init tk sa mp bm bd lump"
  let ?u = "py_int (lump / close r)"
  have init: "initial_lumpsum ?s0 = lump" "transactions ?s0 = []"
    "benchmark_units ?s0 = 0" "benchmark_invested ?s0 = 0" "base_sip ?s0 = sa"
    by (simp_all add: PKPStrategy_init_def)
  from assms(3) obtain s1 l ls where
    pr: "process_row ?s0 0 None r = Some (s1, l)" and
    rest: "run_loop s1 (Suc 0) (Some (month (date r))) rs = Some (s, ls)"
    by (auto simp: run_def run_logs_def split: bind_splits prod.splits)
  have s1: "run ?s0 [r] = Some s1"
    using pr by (simp add: run_def run_logs_def)
  from first_row_benchmark[OF pr] obtain sl act where
    sl: "lumpsum ?s0 0 (date r) (close r) = Some sl" and
    bm: "benchmark_units s1 = benchmark_units sl" "benchmark_invested s1 = benchmark_invested sl"
    and tr: "transactions s1 = transactions sl @ act"
    by blast
  have ex: "lumpsum_exec ?s0 (date r) (close r) ?u = Some sl"
    using lumpsum_fires[of ?s0 "close r" "date r"] assms(1,2) sl init(1) by simp
  from lumpsum_exec_transactions[OF ex] obtain tx where
    tx: "transactions sl = transactions ?s0 @ [tx]" "t_type tx = LUMPSUM" "t_units tx = ?u"
        "t_amount tx = of_int ?u * close r"
    by blast
  have "base_sip s1 = base_sip sl"
    using process_row_benchmark[OF pr] sl by auto
  then have b1: "base_sip s1 = sa"
    using lumpsum_exec_Some(12)[OF ex] init(5) by simp
  have later: "benchmark_units s =
          benchmark_units s1 + contribution_units sa (Some (month (date r))) rs"
    "benchmark_invested s =
          benchmark_invested s1 + contribution_cost sa (Some (month (date r))) rs"
    using run_loop_benchmark[OF rest] b1 by simp_all
  show ?thesis
    using s1 bm tr tx init later lumpsum_exec_Some(9,10)[OF ex] by simp
qed

theorem benchmark_lumpsum_witness:
  "\<exists>s s1. run example_strategy example_data = Some s
     \<and> run example_strategy [hd example_data] = Some s1
     \<and> t_type (hd (transactions s1)) = LUMPSUM
     \<and> benchmark_units s1 = 1000 \<and> benchmark_invested s1 = 100000
     \<and> contribution_units 100000 (Some 1) (tl example_data) = 500
     \<and> benchmark_units s = 1500 \<and> benchmark_invested s = 200000"
proof -
  have h: "(0::real) < 100000" "0 < py_int (100000 / close (hd example_data))"
    by (simp_all add: example_defs py_int_def)
  have e: "py_int (100000 / close (hd example_data)) = 1000"
    by (simp add: example_defs py_int_def)
  have c: "contribution_units 100000 (Some 1) (tl example_data) = 500"
    "contribution_cost 100000 (Some 1) (tl example_data) = 100000"
    "month (date (hd example_data)) = 1" "close (hd example_data) = 100"
    by (simp_all add: example_defs py_int_def)
  have "\<exists>s. run example_strategy example_data = Some s"
    by (simp add: run_defs example_defs)
  then obtain s where r: "run example_strategy example_data = Some s" by blast
  have r': "run (PKPStrategy_init ''X'' 100000 10000 0.5 0.02 100000)
              (hd example_data # tl example_data) = Some s"
    using r by (simp add: example_strategy_def example_data_def)
  from benchmark_lumpsum[OF h r'] show ?thesis
    using r e c by (auto simp: example_strategy_def)
qed

text \<open>
  C4. Every executed purchase is funded from the reserve first: with \<open>c\<close> its cost (the
  amount of the transaction it logs) and \<open>r\<close> the reserve before it, the reserve after it is
  \<open>max 0 (r - c)\<close> and \<open>actual_invested\<close> grows by exactly \<open>max 0 (c - r)\<close>. This holds of a
  monthly contribution and of a dip-buy from any object, and of the initial lumpsum from
  the object the constructor builds (the lumpsum executes on the first record of a run
  only, where the reserve is 0).
\<close>

theorem funding_order:
  "(sip self dt p = Some (s', Some SIP) \<longrightarrow> funded_reserve_first self s') \<and>
   (bid self dt p = Some (s', Some (BID k)) \<longrightarrow> funded_reserve_first self s') \<and>
   (lumpsum (PKPStrategy_init tk sa mp bm bd lump) i dt p = Some s' \<and> transactions s' \<noteq> []
      \<longrightarrow> funded_reserve_first (PKPStrategy_init tk sa mp bm bd lump) s')"
  using sip_funded bid_funded lumpsum_funded by blast

theorem funding_order_witness:
  "(\<exists>s'. sip reserve_strategy day3 200 = Some (s', Some SIP)
        \<and> funded_reserve_first reserve_strategy s'
        \<and> profit_reserve s' = 0 \<and> actual_invested s' = 160000) \<and>
   (\<exists>s'. bid reserve_strategy day2 85 = Some (s', Some (BID 1))
        \<and> funded_reserve_first reserve_strategy s'
        \<and> profit_reserve s' = 0 \<and> actual_invested s' = 109980) \<and>
   (\<exists>s'. lumpsum example_strategy 0 day1 100 = Some s' \<and> transactions s' \<noteq> []
        \<and> funded_reserve_first example_strategy s'
        \<and> profit_reserve s' = 0 \<and> actual_invested s' = 100000)"
proof -
  have "\<exists>s'. sip reserve_strategy day3 200 = Some (s', Some SIP)
          \<and> profit_reserve s' = 0 \<and> actual_invested s' = 160000"
    by (simp add: run_defs example_defs)
  then obtain s1 where a: "sip reserve_strategy day3 200 = Some (s1, Some SIP)"
    "profit_reserve s1 = 0" "actual_invested s1 = 160000" by blast
  have "\<exists>s'. bid reserve_strategy day2 85 = Some (s', Some (BID 1))
          \<and> profit_reserve s' = 0 \<and> actual_invested s' = 109980"
    by (simp add: run_defs example_defs)
  then obtain s2 where b: "bid reserve_strategy day2 85 = Some (s2, Some (BID 1))"
    "profit_reserve s2 = 0" "actual_invested s2 = 109980" by blast
  have "\<exists>s'. lumpsum example_strategy 0 day1 100 = Some s' \<and> transactions s' \<noteq> []
          \<and> profit_reserve s' = 0 \<and> actual_invested s' = 100000"
    by (simp add: run_defs example_defs)
  then obtain s3 where c: "lumpsum example_strategy 0 day1 100 = Some s3" "transactions s3 \<noteq> []"
    "profit_reserve s3 = 0" "actual_invested s3 = 100000" by blast
  show ?thesis
    using a b c
      funding_order[of reserve_strategy day3 200 s1 1 "''X''" 100000 10000 "0.5" "0.02" 100000 0]
      funding_order[of reserve_strategy day2 85 s2 1 "''X''" 100000 10000 "0.5" "0.02" 100000 0]
      funding_order[of reserve_strategy day1 100 s3 1 "''X''" 100000 10000 "0.5" "0.02" 100000 0]
    unfolding example_strategy_def by blast
qed

text \<open>
  C1, at the input where the code departs from it. A lumpsum of 800040 buys 20001 units at
  40; at 50 the next day the harvest fires with a target of 10000.5. The ceiling of
  target / price is 201 and is not capped by the holdings, but the code sells 200 units,
  for 10000, which is less than the target.
\<close>

theorem harvest_sells_below_target:
  "\<exists>s1 s2. run rounding_strategy (take 1 rounding_data) = Some s1
     \<and> run rounding_strategy rounding_data = Some s2
     \<and> map t_type (transactions s2) = [LUMPSUM, SELL]
     \<and> target_threshold s1 50 = 10000.5
     \<and> target_threshold s1 50 \<le> of_int (total_units s1) * 50 - bia s1
     \<and> min (total_units s1) \<lceil>target_threshold s1 50 / 50\<rceil> = 201
     \<and> total_units s1 - total_units s2 = 200
     \<and> of_int (total_units s1 - total_units s2) * 50 < target_threshold s1 50"
  by (simp add: run_defs example_defs)

text \<open>
  C2, at the input where the code departs from it. With the defaults and one record priced
  above the contribution nothing is ever bought: the one history record has
  \<open>actual_invested = 0\<close>, never above the tolerance. \<^verbatim>\<open>generate_report\<close> leaves the sustained
  breakeven date unset, but \<^verbatim>\<open>get_metrics\<close> reports the date of the first record.
\<close>

theorem metrics_breakeven_without_investment:
  "\<exists>s. run idle_strategy idle_data = Some s
     \<and> portfolio_history s \<noteq> []
     \<and> list_all (\<lambda>h. \<not> 1 < h_actual_invested h) (portfolio_history s)
     \<and> sustained_breakeven_date (generate_report s) = None
     \<and> map_option m_break_even_date (get_metrics s) = Some (Reached day1)"
  by (simp add: run_defs example_defs generate_report_def get_metrics_def last_positive_date_def)

end
